theory Spec2Isabelle
  imports Main
begin

section \<open>Error values\<close>

text \<open>
  A non-nil Go \<open>error\<close> of the kinds this package meets: an \<open>*errors.errorString\<close>
  (made by \<open>errors.New\<close>), a \<open>*fmt.wrapError\<close> (made by \<open>fmt.Errorf\<close> with one
  \<open>%w\<close>) and the package's own slice type \<open>CorpusErrors\<close>. The first two are pointers:
  Go compares them by address, so each carries the address of its object, and two values
  are the same pointer exactly when they are equal here. A \<open>CorpusErrors\<close> is the list of
  its elements, in stored order; the elements are non-nil errors, as in every aggregate this
  package builds. The nil interface value is \<open>None\<close> of \<open>error option\<close>.
\<close>

datatype error =
    ErrorString nat string
  | WrapError nat string error
  | CorpusErrors "error list"

definition ErrEmptyCorpus :: error where
  "ErrEmptyCorpus = ErrorString 0 ''no valid fuzz corpus files in directory''"

definition ErrMalformedEntry :: error where
  "ErrMalformedEntry = ErrorString 1 ''must include version and at least one value''"

definition ErrUnsupportedVersion :: error where
  "ErrUnsupportedVersion = ErrorString 2 ''unsupported encoding version''"

definition ErrInconsistentArgCount :: error where
  "ErrInconsistentArgCount = ErrorString 3 ''inconsistent arg count in corpus entry''"

subsection \<open>The unexported helpers of \<open>CorpusErrors\<close>\<close>

definition CorpusErrors_empty :: "error list \<Rightarrow> bool" where
  "CorpusErrors_empty e = (length e = 0)"

definition CorpusErrors_lastIndex :: "error list \<Rightarrow> int" where
  "CorpusErrors_lastIndex e = int (length e) - 1"

definition CorpusErrors_AsError :: "error list \<Rightarrow> error option" where
  "CorpusErrors_AsError e = (if CorpusErrors_empty e then None else Some (CorpusErrors e))"

definition CorpusErrors_last :: "error list \<Rightarrow> error option" where
  "CorpusErrors_last e =
     (if CorpusErrors_empty e then None else Some (e ! nat (CorpusErrors_lastIndex e)))"

definition CorpusErrors_Unwrap :: "error list \<Rightarrow> error option" where
  "CorpusErrors_Unwrap e =
     (if CorpusErrors_empty e then None
      else CorpusErrors_AsError (take (nat (CorpusErrors_lastIndex e)) e))"

definition CorpusErrors_append :: "error list \<Rightarrow> error list \<Rightarrow> error list" where
  "CorpusErrors_append e errs = e @ errs"

subsection \<open>\<open>errors.Is\<close> and the \<open>Is\<close> method\<close>

text \<open>
  \<open>errors_Is\<close> is \<open>errors.Is\<close> of the standard library and \<open>errors_is\<close> its loop over
  the chain of \<open>err\<close>: the pointer comparison \<open>err == target\<close> (skipped when the target's
  type is not comparable, and false between values of different types), then the \<open>Is\<close>
  method when \<open>err\<close> has one (only \<open>CorpusErrors\<close> has), then \<open>Unwrap\<close>.
  \<open>CorpusErrors_Is\<close> is the method \<open>CorpusErrors.Is\<close>.
\<close>

definition osz :: "error option \<Rightarrow> nat" where
  "osz x = (case x of None \<Rightarrow> 0 | Some e \<Rightarrow> size e)"

lemma CorpusErrors_last_eq:
  "CorpusErrors_last e = (if e = [] then None else Some (last e))"
  by (simp add: CorpusErrors_last_def CorpusErrors_empty_def CorpusErrors_lastIndex_def
      last_conv_nth nat_diff_distrib')

lemma CorpusErrors_Unwrap_eq:
  "CorpusErrors_Unwrap e =
     (if e = [] \<or> butlast e = [] then None else Some (CorpusErrors (butlast e)))"
  by (simp add: CorpusErrors_Unwrap_def CorpusErrors_AsError_def CorpusErrors_empty_def
      CorpusErrors_lastIndex_def butlast_conv_take nat_diff_distrib')

lemma size_last_lt: "osz (CorpusErrors_last e) < size (CorpusErrors e)"
  by (auto simp: osz_def CorpusErrors_last_eq intro!: le_imp_less_Suc size_list_estimation')

lemma size_Unwrap_lt:
  assumes "CorpusErrors_Unwrap e = Some err"
  shows "size err < size (CorpusErrors e)"
proof -
  from assms have ne: "e \<noteq> []" and err: "err = CorpusErrors (butlast e)"
    by (auto simp: CorpusErrors_Unwrap_eq split: if_splits)
  from ne obtain xs x where "e = xs @ [x]" by (metis rev_exhaust)
  with err show ?thesis by simp
qed

function errors_Is :: "error option \<Rightarrow> error option \<Rightarrow> bool"
  and errors_is :: "error \<Rightarrow> error \<Rightarrow> bool"
  and CorpusErrors_Is :: "error list \<Rightarrow> error option \<Rightarrow> bool"
where
  "errors_Is None target = (target = None)"
| "errors_Is (Some err) None = False"
| "errors_Is (Some err) (Some target) = errors_is err target"
| "errors_is (ErrorString a s) target = (ErrorString a s = target)"
| "errors_is (WrapError a m err) target =
     (if WrapError a m err = target then True else errors_is err target)"
| "errors_is (CorpusErrors e) target =
     (if CorpusErrors_Is e (Some target) then True
      else (case CorpusErrors_Unwrap e of
              None \<Rightarrow> False
            | Some err \<Rightarrow> errors_is err target))"
| "CorpusErrors_Is e (Some (CorpusErrors t)) =
     (if CorpusErrors_empty e \<or> CorpusErrors_empty t
      then CorpusErrors_empty e = CorpusErrors_empty t
      else list_all (\<lambda>err. errors_Is (Some (CorpusErrors e)) (Some err)) t)"
| "CorpusErrors_Is e (Some (ErrorString a s)) =
     errors_Is (CorpusErrors_last e) (Some (ErrorString a s))"
| "CorpusErrors_Is e (Some (WrapError a m err)) =
     errors_Is (CorpusErrors_last e) (Some (WrapError a m err))"
| "CorpusErrors_Is e None = errors_Is (CorpusErrors_last e) None"
  by pat_completeness auto
termination
proof (relation "measure (\<lambda>x. case x of
    Inl (a, b) \<Rightarrow> 3 * (osz a + osz b) + 2
  | Inr (Inl (e, t)) \<Rightarrow> 3 * (size e + size t) + 1
  | Inr (Inr (e, t)) \<Rightarrow> 3 * (size (CorpusErrors e) + osz t))", goal_cases)
  case 1
  show ?case by simp
next
  case 2
  then show ?case by (simp add: osz_def)
next
  case 3
  then show ?case by simp
next
  case 4
  then show ?case by (simp add: osz_def)
next
  case (5 e target x2)
  then show ?case using size_Unwrap_lt[of e x2] by simp
next
  case (6 e t x)
  then have "size x \<le> size_list size t" by (auto intro: size_list_estimation')
  then show ?case by (simp add: osz_def)
next
  case (7 e a s)
  then show ?case using size_last_lt[of e] by (simp add: osz_def)
next
  case (8 e a m err)
  then show ?case using size_last_lt[of e] by (simp add: osz_def)
next
  case (9 e)
  then show ?case using size_last_lt[of e] by (simp add: osz_def)
qed

declare errors_is.simps(3) [simp del]

lemma errors_is_CorpusErrors:
  "errors_is (CorpusErrors e) target =
     (CorpusErrors_Is e (Some target) \<or>
      (e \<noteq> [] \<and> butlast e \<noteq> [] \<and> errors_is (CorpusErrors (butlast e)) target))"
  by (subst errors_is.simps(3)) (simp add: CorpusErrors_Unwrap_eq)

definition IsValidationError :: "error option \<Rightarrow> bool" where
  "IsValidationError err =
     (errors_Is err (Some ErrMalformedEntry) \<or>
      errors_Is err (Some ErrUnsupportedVersion) \<or>
      errors_Is err (Some ErrInconsistentArgCount))"

subsection \<open>\<open>Capture\<close>\<close>

text \<open>
  The receiver of \<open>Capture\<close> is a pointer to the aggregate, which the method may extend:
  the model takes the aggregate and returns the returned error together with the
  aggregate after the call. \<open>Capture_range\<close> is the \<open>for ... range errs\<close> loop of the
  branch for a candidate that is itself a \<open>CorpusErrors\<close>.
\<close>

fun Capture :: "error list \<Rightarrow> error option \<Rightarrow> error option \<times> error list"
  and Capture_range :: "error list \<Rightarrow> error list \<Rightarrow> error option \<times> error list"
where
  "Capture e None = (None, e)"
| "Capture e (Some (CorpusErrors errs)) = Capture_range e errs"
| "Capture e (Some err) =
     (if IsValidationError (Some err) then (None, CorpusErrors_append e [err])
      else if errors_Is (Some err) (Some ErrEmptyCorpus)
      then (let e' = CorpusErrors_append e [err] in (CorpusErrors_AsError e', e'))
      else (Some err, e))"
| "Capture_range e [] = (None, e)"
| "Capture_range e (err # errs) =
     (case Capture e (Some err) of
        (Some r, e') \<Rightarrow> (Some r, e')
      | (None, e') \<Rightarrow> Capture_range e' errs)"

subsection \<open>Predicates used to state the properties\<close>

text \<open>
  \<open>is_CorpusErrors err\<close> holds when the dynamic type of \<open>err\<close> is \<open>CorpusErrors\<close>, as the
  type assertion \<open>err.(CorpusErrors)\<close> tests; \<open>sentinels\<close> lists the four exported error
  variables of the package.
\<close>

fun is_CorpusErrors :: "error \<Rightarrow> bool" where
  "is_CorpusErrors (CorpusErrors e) = True"
| "is_CorpusErrors (ErrorString a s) = False"
| "is_CorpusErrors (WrapError a m err) = False"

definition sentinels :: "error list" where
  "sentinels = [ErrEmptyCorpus, ErrMalformedEntry, ErrUnsupportedVersion, ErrInconsistentArgCount]"

section \<open>Library functions and collaborators\<close>

subsection \<open>Bytes, strings and formatting\<close>

definition LF :: char where
  "LF = CHR 0x0A"

definition CR :: char where
  "CR = CHR 0x0D"

definition TAB :: char where
  "TAB = CHR 0x09"

text \<open>\<open>strings.Join\<close>.\<close>

fun strings_Join :: "string list \<Rightarrow> string \<Rightarrow> string" where
  "strings_Join [] sep = []"
| "strings_Join [x] sep = x"
| "strings_Join (x # y # ys) sep = x @ sep @ strings_Join (y # ys) sep"

text \<open>
  The \<open>Error\<close> method: the text of an \<open>errorString\<close>, the message a \<open>wrapError\<close> was
  built with, and \<open>CorpusErrors.Error\<close> of this package.
\<close>

fun Error :: "error \<Rightarrow> string" where
  "Error (ErrorString a s) = s"
| "Error (WrapError a msg err) = msg"
| "Error (CorpusErrors e) =
     (if CorpusErrors_empty e then ''no fuzz corpus errors''
      else strings_Join (''fuzz corpus has errors:'' # map Error e) [LF, TAB])"

text \<open>
  \<open>bytes.Split(b, []byte{sep})\<close> for a separator of one byte: the pieces of \<open>b\<close> between
  the separators, one more than there are separators. \<open>cur\<close> is the piece being read.
\<close>

fun bytes_Split_from :: "string \<Rightarrow> char \<Rightarrow> string \<Rightarrow> string list" where
  "bytes_Split_from [] sep cur = [cur]"
| "bytes_Split_from (c # cs) sep cur =
     (if c = sep then cur # bytes_Split_from cs sep []
      else bytes_Split_from cs sep (cur @ [c]))"

definition bytes_Split :: "string \<Rightarrow> char \<Rightarrow> string list" where
  "bytes_Split b sep = bytes_Split_from b sep []"

definition strings_TrimSuffix :: "string \<Rightarrow> string \<Rightarrow> string" where
  "strings_TrimSuffix s suffix =
     (if length suffix \<le> length s \<and> drop (length s - length suffix) s = suffix
      then take (length s - length suffix) s
      else s)"

text \<open>The verb \<open>%d\<close> on a non-negative \<open>int\<close> (the arguments here are lengths).\<close>

fun fmt_d :: "nat \<Rightarrow> string" where
  "fmt_d n =
     (if n < 10 then [''0123456789'' ! n]
      else fmt_d (n div 10) @ [''0123456789'' ! (n mod 10)])"

declare fmt_d.simps [simp del]

text \<open>
  Functions of the standard library whose definitions are large and play no part in the
  properties are parameters of the model: \<open>strconv.Quote\<close> (the verb \<open>%q\<close>),
  \<open>bytes.TrimSpace\<close> and \<open>path.Join\<close> of two elements.
\<close>

record stdlib =
  strconv_Quote :: "string \<Rightarrow> string"
  bytes_TrimSpace :: "string \<Rightarrow> string"
  path_Join :: "string \<Rightarrow> string \<Rightarrow> string"

text \<open>
  \<open>fmt.Errorf\<close> with one \<open>%w\<close> allocates a new \<open>wrapError\<close>: the model threads the next
  free address \<open>h\<close> through every function that may call it. The message is the
  formatted text, which the caller passes.
\<close>

definition fmt_Errorf :: "string \<Rightarrow> error \<Rightarrow> nat \<Rightarrow> error \<times> nat" where
  "fmt_Errorf msg err h = (WrapError h msg err, Suc h)"

definition readErr :: "stdlib \<Rightarrow> error option \<Rightarrow> string \<Rightarrow> nat \<Rightarrow> error option \<times> nat" where
  "readErr lib err fileName h =
     (case err of
        Some e \<Rightarrow>
          (case fmt_Errorf (''reading '' @ strconv_Quote lib fileName @ '': '' @ Error e) e h of
             (w, h') \<Rightarrow> (Some w, h'))
      | None \<Rightarrow> (None, h))"

definition writeErr :: "error option \<Rightarrow> nat \<Rightarrow> error option \<times> nat" where
  "writeErr err h =
     (case err of
        Some e \<Rightarrow>
          (case fmt_Errorf (''writing output: '' @ Error e) e h of (w, h') \<Rightarrow> (Some w, h'))
      | None \<Rightarrow> (None, h))"

subsection \<open>The file system and the writer\<close>

text \<open>
  An \<open>fs.FS\<close> as the package uses it: \<open>fs.ReadDir\<close> gives the entries of a directory (each
  with its name and whether \<open>Type().IsRegular()\<close> holds) or an error, \<open>fs.ReadFile\<close> gives
  the bytes of a file or an error. An \<open>io.Writer\<close> is a state \<open>'w\<close> with a \<open>Write\<close>
  function that returns the error (nil for success) and the next state.
\<close>

record DirEntry =
  Name :: string
  IsRegular :: bool

record FS =
  ReadDir :: "string \<Rightarrow> error + DirEntry list"
  ReadFile :: "string \<Rightarrow> error + string"

type_synonym 'w writer = "'w \<Rightarrow> string \<Rightarrow> error option \<times> 'w"

definition fmt_Fprintln :: "'w writer \<Rightarrow> 'w \<Rightarrow> string \<Rightarrow> error option \<times> 'w" where
  "fmt_Fprintln wr w s = wr w (s @ [LF])"

text \<open>\<open>fmt.Fprintf(w, "\t%s,\n", v)\<close>: one \<open>Write\<close> of the formatted line.\<close>

definition fmt_Fprintf_value :: "'w writer \<Rightarrow> 'w \<Rightarrow> string \<Rightarrow> error option \<times> 'w" where
  "fmt_Fprintf_value wr w v = wr w ([TAB] @ v @ '','' @ [LF])"

section \<open>The scan\<close>

definition encVersion1 :: string where
  "encVersion1 = ''go test fuzz v1''"

text \<open>The loop of \<open>readLines\<close> over \<open>s[1:]\<close>, with the lines gathered so far.\<close>

fun readLines_range :: "stdlib \<Rightarrow> string list \<Rightarrow> string list \<Rightarrow> string list" where
  "readLines_range lib [] lines = lines"
| "readLines_range lib (v # vs) lines =
     (let line = bytes_TrimSpace lib v in
      if length line = 0 then readLines_range lib vs lines
      else readLines_range lib vs (lines @ [line]))"

definition readLines ::
  "stdlib \<Rightarrow> FS \<Rightarrow> string \<Rightarrow> nat \<Rightarrow> (error + string list) \<times> nat" where
  "readLines lib fsys name h =
     (case ReadFile fsys name of
        Inl err \<Rightarrow> (Inl err, h)
      | Inr b \<Rightarrow>
          (let s = bytes_Split b LF in
           if length s < 2 then (Inl ErrMalformedEntry, h)
           else
             (let v = strings_TrimSuffix (s ! 0) [CR] in
              if v \<noteq> encVersion1
              then (case fmt_Errorf (Error ErrUnsupportedVersion @ '': '' @ strconv_Quote lib v)
                           ErrUnsupportedVersion h of
                      (err, h') \<Rightarrow> (Inl err, h'))
              else
                (let lines = readLines_range lib (drop 1 s) [] in
                 if length lines < 1 then (Inl ErrMalformedEntry, h)
                 else (Inr lines, h)))))"

definition getFiles :: "FS \<Rightarrow> string \<Rightarrow> error + DirEntry list" where
  "getFiles fsys dir =
     (case ReadDir fsys dir of
        Inl err \<Rightarrow> Inl err
      | Inr s \<Rightarrow> Inr (filter IsRegular s))"

definition corpusFiles :: "FS \<Rightarrow> string \<Rightarrow> error + DirEntry list" where
  "corpusFiles fsys dir =
     (case getFiles fsys dir of
        Inl err \<Rightarrow> Inl err
      | Inr files \<Rightarrow> if length files = 0 then Inl ErrEmptyCorpus else Inr files)"

text \<open>
  The loop of \<open>firstValidFileLines\<close>: \<open>files\<close> is \<open>allFiles[i:]\<close> and \<open>errs\<close> the local
  aggregate. The result is the triple of results \<open>(lines, files, err)\<close> and the next free
  address.
\<close>

fun firstValidFileLines_loop ::
  "stdlib \<Rightarrow> FS \<Rightarrow> string \<Rightarrow> DirEntry list \<Rightarrow> error list \<Rightarrow> nat \<Rightarrow>
   (string list \<times> DirEntry list \<times> error option) \<times> nat" where
  "firstValidFileLines_loop lib fsys dir [] errs h =
     (case Capture errs (Some ErrEmptyCorpus) of (err, errs') \<Rightarrow> (([], [], err), h))"
| "firstValidFileLines_loop lib fsys dir (f # fs) errs h =
     (case readLines lib fsys (path_Join lib dir (Name f)) h of
        (Inr lines, h1) \<Rightarrow> ((lines, f # fs, CorpusErrors_AsError errs), h1)
      | (Inl err, h1) \<Rightarrow>
          (case readErr lib (Some err) (Name f) h1 of
             (re, h2) \<Rightarrow>
               (case Capture errs re of
                  (Some e, errs') \<Rightarrow> (([], [], Some e), h2)
                | (None, errs') \<Rightarrow> firstValidFileLines_loop lib fsys dir fs errs' h2)))"

definition firstValidFileLines ::
  "stdlib \<Rightarrow> FS \<Rightarrow> string \<Rightarrow> DirEntry list \<Rightarrow> nat \<Rightarrow>
   (string list \<times> DirEntry list \<times> error option) \<times> nat" where
  "firstValidFileLines lib fsys dir allFiles h =
     firstValidFileLines_loop lib fsys dir allFiles [] h"

record separators =
  Pre :: string
  In :: string
  Post :: string

definition sigleArgSep :: separators where
  "sigleArgSep = \<lparr>Pre = ''{'', In = '''', Post = ''}''\<rparr>"

definition multiArgSep :: separators where
  "multiArgSep = \<lparr>Pre = ''{{'', In = ''}, {'', Post = ''}}''\<rparr>"

fun dumpLines :: "'w writer \<Rightarrow> string list \<Rightarrow> 'w \<Rightarrow> nat \<Rightarrow> error option \<times> 'w \<times> nat" where
  "dumpLines wr [] w h = (None, w, h)"
| "dumpLines wr (v # vs) w h =
     (case fmt_Fprintf_value wr w v of
        (Some err, w') \<Rightarrow> (case writeErr (Some err) h of (e, h') \<Rightarrow> (e, w', h'))
      | (None, w') \<Rightarrow> dumpLines wr vs w' h)"

text \<open>The loop of \<open>dumpFiles\<close>, with the local aggregate \<open>errs\<close>.\<close>

fun dumpFiles_range ::
  "stdlib \<Rightarrow> 'w writer \<Rightarrow> FS \<Rightarrow> string \<Rightarrow> nat \<Rightarrow> DirEntry list \<Rightarrow> error list \<Rightarrow>
   'w \<Rightarrow> nat \<Rightarrow> error option \<times> 'w \<times> nat" where
  "dumpFiles_range lib wr fsys dir argCount [] errs w h = (CorpusErrors_AsError errs, w, h)"
| "dumpFiles_range lib wr fsys dir argCount (f # fs) errs w h =
     (case readLines lib fsys (path_Join lib dir (Name f)) h of
        (Inl err, h1) \<Rightarrow>
          (case readErr lib (Some err) (Name f) h1 of
             (re, h2) \<Rightarrow>
               (case Capture errs re of
                  (Some e, errs') \<Rightarrow> (Some e, w, h2)
                | (None, errs') \<Rightarrow> dumpFiles_range lib wr fsys dir argCount fs errs' w h2))
      | (Inr lines, h1) \<Rightarrow>
          (if length lines \<noteq> argCount
           then
             (case fmt_Errorf
                     (Error ErrInconsistentArgCount @ '': want '' @ fmt_d argCount @
                      '', got '' @ fmt_d (length lines))
                     ErrInconsistentArgCount h1 of
                (ie, h2) \<Rightarrow>
                  (case readErr lib (Some ie) (Name f) h2 of
                     (Some re, h3) \<Rightarrow>
                       dumpFiles_range lib wr fsys dir argCount fs
                         (CorpusErrors_append errs [re]) w h3
                   | (None, h3) \<Rightarrow> dumpFiles_range lib wr fsys dir argCount fs errs w h3))
           else
             (case (if argCount > 1 then fmt_Fprintln wr w (In multiArgSep) else (None, w)) of
                (Some err, w1) \<Rightarrow> (case writeErr (Some err) h1 of (e, h2) \<Rightarrow> (e, w1, h2))
              | (None, w1) \<Rightarrow>
                  (case dumpLines wr lines w1 h1 of
                     (Some e, w2, h2) \<Rightarrow> (Some e, w2, h2)
                   | (None, w2, h2) \<Rightarrow>
                       dumpFiles_range lib wr fsys dir argCount fs errs w2 h2))))"

definition dumpFiles ::
  "stdlib \<Rightarrow> 'w writer \<Rightarrow> FS \<Rightarrow> string \<Rightarrow> DirEntry list \<Rightarrow> nat \<Rightarrow> 'w \<Rightarrow> nat \<Rightarrow>
   error option \<times> 'w \<times> nat" where
  "dumpFiles lib wr fsys dir files argCount w h =
     dumpFiles_range lib wr fsys dir argCount files [] w h"

text \<open>
  \<open>DumpDir\<close> returns an error, or panics: the slice expression \<open>files[1:]\<close> panics on an
  empty slice.
\<close>

datatype 'a outcome = Returns 'a | Panics

definition DumpDir ::
  "stdlib \<Rightarrow> 'w writer \<Rightarrow> FS \<Rightarrow> string \<Rightarrow> 'w \<Rightarrow> nat \<Rightarrow> error option outcome \<times> 'w \<times> nat" where
  "DumpDir lib wr fsys dir w h =
     (case corpusFiles fsys dir of
        Inl err \<Rightarrow> (Returns (Some err), w, h)
      | Inr files0 \<Rightarrow>
          (case firstValidFileLines lib fsys dir files0 h of
             ((lines, files, err), h1) \<Rightarrow>
               (case Capture [] err of
                  (Some e, errs1) \<Rightarrow> (Returns (Some e), w, h1)
                | (None, errs1) \<Rightarrow>
                    (let argCount = length lines;
                         seps = (if argCount > 1 then multiArgSep else sigleArgSep) in
                     case fmt_Fprintln wr w (Pre seps) of
                       (Some err, w1) \<Rightarrow>
                         (case writeErr (Some err) h1 of (e, h2) \<Rightarrow> (Returns e, w1, h2))
                     | (None, w1) \<Rightarrow>
                         (case dumpLines wr lines w1 h1 of
                            (Some e, w2, h2) \<Rightarrow> (Returns (Some e), w2, h2)
                          | (None, w2, h2) \<Rightarrow>
                              (case files of
                                 [] \<Rightarrow> (Panics, w2, h2)
                               | f # rest \<Rightarrow>
                                   (case dumpFiles lib wr fsys dir rest argCount w2 h2 of
                                      (err, w3, h3) \<Rightarrow>
                                        (case Capture errs1 err of
                                           (Some e, errs2) \<Rightarrow> (Returns (Some e), w3, h3)
                                         | (None, errs2) \<Rightarrow>
                                             (case fmt_Fprintln wr w3 (Post seps) of
                                                (Some err, w4) \<Rightarrow>
                                                  (case writeErr (Some err) h3 of
                                                     (e, h4) \<Rightarrow> (Returns e, w4, h4))
                                              | (None, w4) \<Rightarrow>
                                                  (Returns (CorpusErrors_AsError errs2),
                                                   w4, h3))))))))))"

section \<open>Vocabulary for the properties of a scan\<close>

text \<open>
  \<open>entry lib fsys dir f\<close> is what \<open>readLines\<close> returns for the file \<open>f\<close> of the
  directory: its argument lines, or the error (with a newly allocated wrapper, if the error
  is one, at address 0). \<open>same_but_address\<close> relates two errors that are equal or are two
  wrappers with the same message around the same error: what \<open>readLines\<close> returns for a
  file at two different moments of a scan.
\<close>

definition entry :: "stdlib \<Rightarrow> FS \<Rightarrow> string \<Rightarrow> DirEntry \<Rightarrow> error + string list" where
  "entry lib fsys dir f = fst (readLines lib fsys (path_Join lib dir (Name f)) 0)"

fun same_but_address :: "error \<Rightarrow> error \<Rightarrow> bool" where
  "same_but_address (WrapError a m x) (WrapError a' m' x') = (m = m' \<and> x = x')"
| "same_but_address e e' = (e = e')"

text \<open>
  A file is \<open>rejected\<close> when \<open>readLines\<close> fails on it with an error that \<open>Capture\<close>
  absorbs (a validation error), and \<open>unreadable\<close> with the error \<open>ioerr\<close> when the read
  primitive fails on it with \<open>ioerr\<close> and \<open>ioerr\<close> matches none of the four exported
  errors.
\<close>

definition rejected :: "stdlib \<Rightarrow> FS \<Rightarrow> string \<Rightarrow> DirEntry \<Rightarrow> bool" where
  "rejected lib fsys dir f =
     (case entry lib fsys dir f of
        Inl e \<Rightarrow> IsValidationError (Some e)
      | Inr ls \<Rightarrow> False)"

definition accepted_or_rejected :: "stdlib \<Rightarrow> FS \<Rightarrow> string \<Rightarrow> DirEntry \<Rightarrow> bool" where
  "accepted_or_rejected lib fsys dir f =
     (case entry lib fsys dir f of
        Inl e \<Rightarrow> IsValidationError (Some e)
      | Inr ls \<Rightarrow> True)"

definition opaque :: "error \<Rightarrow> bool" where
  "opaque e = (\<not> IsValidationError (Some e) \<and> \<not> errors_Is (Some e) (Some ErrEmptyCorpus))"

definition unreadable :: "stdlib \<Rightarrow> FS \<Rightarrow> string \<Rightarrow> DirEntry \<Rightarrow> error \<Rightarrow> bool" where
  "unreadable lib fsys dir f ioerr =
     (ReadFile fsys (path_Join lib dir (Name f)) = Inl ioerr \<and> opaque ioerr)"

text \<open>
  \<open>logged wr\<close> is the writer \<open>wr\<close> with a record of every \<open>Write\<close> call: the bytes
  passed and the error returned. \<open>all_written\<close> holds of a record without a failed call.
\<close>

definition logged :: "'w writer \<Rightarrow> ('w \<times> (string \<times> error option) list) writer" where
  "logged wr = (\<lambda>(w, log) b. case wr w b of (r, w') \<Rightarrow> (r, (w', log @ [(b, r)])))"

definition all_written :: "(string \<times> error option) list \<Rightarrow> bool" where
  "all_written log = list_all (\<lambda>(b, r). r = None) log"

text \<open>
  The bytes of one value line, of one later entry (with the separator before it in the
  multi-argument form) and of all later entries of a scan with arity \<open>n\<close>: an entry is
  emitted when it validates with \<open>n\<close> arguments.
\<close>

definition value_line :: "string \<Rightarrow> string" where
  "value_line v = [TAB] @ v @ '','' @ [LF]"

definition entry_chunks :: "nat \<Rightarrow> string list \<Rightarrow> string list" where
  "entry_chunks n ls = (if n > 1 then [In multiArgSep @ [LF]] else []) @ map value_line ls"

definition emitted :: "stdlib \<Rightarrow> FS \<Rightarrow> string \<Rightarrow> nat \<Rightarrow> DirEntry \<Rightarrow> bool" where
  "emitted lib fsys dir n f =
     (case entry lib fsys dir f of Inl e \<Rightarrow> False | Inr ls \<Rightarrow> length ls = n)"

definition rest_chunks :: "stdlib \<Rightarrow> FS \<Rightarrow> string \<Rightarrow> nat \<Rightarrow> DirEntry list \<Rightarrow> string list" where
  "rest_chunks lib fsys dir n files =
     concat (map (\<lambda>f. case entry lib fsys dir f of
                         Inl e \<Rightarrow> []
                       | Inr ls \<Rightarrow> if length ls = n then entry_chunks n ls else []) files)"

text \<open>
  \<open>reported lib fsys dir n e f\<close>: the error \<open>e\<close> is the report of the file \<open>f\<close> in a scan
  with arity \<open>n\<close>. It is the error of \<open>readLines\<close> for \<open>f\<close> wrapped by \<open>readErr\<close>, or,
  for a file that validates, \<open>ErrInconsistentArgCount\<close> wrapped with the detail
  \<open>want n, got k\<close> and wrapped again by \<open>readErr\<close>.
\<close>

definition argCount_message :: "nat \<Rightarrow> nat \<Rightarrow> string" where
  "argCount_message n k =
     ''inconsistent arg count in corpus entry: want '' @ fmt_d n @ '', got '' @ fmt_d k"

fun reported :: "stdlib \<Rightarrow> FS \<Rightarrow> string \<Rightarrow> nat \<Rightarrow> error \<Rightarrow> DirEntry \<Rightarrow> bool" where
  "reported lib fsys dir n (WrapError a msg inner) f =
     (case entry lib fsys dir f of
        Inl e \<Rightarrow>
          msg = ''reading '' @ strconv_Quote lib (Name f) @ '': '' @ Error e \<and>
          same_but_address inner e
      | Inr ls \<Rightarrow>
          msg = ''reading '' @ strconv_Quote lib (Name f) @ '': '' @
                argCount_message n (length ls) \<and>
          (case inner of
             WrapError a' msg' k \<Rightarrow>
               msg' = argCount_message n (length ls) \<and> k = ErrInconsistentArgCount
           | ErrorString a' s \<Rightarrow> False
           | CorpusErrors es \<Rightarrow> False))"
| "reported lib fsys dir n (ErrorString a s) f = False"
| "reported lib fsys dir n (CorpusErrors es) f = False"

subsection \<open>Concrete collaborators\<close>

text \<open>
  Instances used to run the model: a library whose \<open>%q\<close> puts the text between double
  quotes (as \<open>strconv.Quote\<close> does for printable ASCII without quotes and backslashes),
  whose \<open>TrimSpace\<close> trims the ASCII white space and whose \<open>Join\<close> puts a slash between
  its arguments; a file system with one directory of regular files, listed in order; the
  writer \<open>Builder\<close> that appends to a string and never fails; and a writer that fails, with
  a given error, on one given chunk.
\<close>

definition DQ :: char where
  "DQ = CHR 0x22"

definition asciiSpace :: "char \<Rightarrow> bool" where
  "asciiSpace c = (c \<in> set [CHR 0x09, CHR 0x0A, CHR 0x0B, CHR 0x0C, CHR 0x0D, CHR 0x20])"

definition test_lib :: stdlib where
  "test_lib =
     \<lparr>strconv_Quote = (\<lambda>s. [DQ] @ s @ [DQ]),
      bytes_TrimSpace = (\<lambda>s. rev (dropWhile asciiSpace (rev (dropWhile asciiSpace s)))),
      path_Join = (\<lambda>d n. d @ ''/'' @ n)\<rparr>"

definition ErrNotExist :: error where
  "ErrNotExist = ErrorString 100 ''file does not exist''"

definition dirFS :: "string \<Rightarrow> (string \<times> string) list \<Rightarrow> FS" where
  "dirFS d files =
     \<lparr>ReadDir = (\<lambda>p. if p = d
                      then Inr (map (\<lambda>(n, b). \<lparr>Name = n, IsRegular = True\<rparr>) files)
                      else Inl (WrapError 101 (''open '' @ p @ '': file does not exist'')
                                  ErrNotExist)),
      ReadFile = (\<lambda>p. case map_of (map (\<lambda>(n, b). (d @ ''/'' @ n, b)) files) p of
                        Some b \<Rightarrow> Inr b
                      | None \<Rightarrow> Inl (WrapError 102 (''open '' @ p @ '': file does not exist'')
                                       ErrNotExist))\<rparr>"

definition Builder :: "string writer" where
  "Builder w b = (None, w @ b)"

definition failOn :: "string \<Rightarrow> error \<Rightarrow> string writer" where
  "failOn chunk err w b = (if b = chunk then (Some err, w) else (None, w @ b))"

definition corpusFile :: "string \<Rightarrow> string" where
  "corpusFile contents = encVersion1 @ [LF] @ contents @ [LF]"

text \<open>
  \<open>seps_for n\<close> are the delimiters \<open>DumpDir\<close> chooses for arity \<open>n\<close>. \<open>write_failed new r\<close>
  holds when the calls \<open>new\<close> end with a failed \<open>Write\<close>, none failed before it, and \<open>r\<close>
  is its error wrapped by \<open>writeErr\<close>.
\<close>

definition seps_for :: "nat \<Rightarrow> separators" where
  "seps_for n = (if n > 1 then multiArgSep else sigleArgSep)"

definition write_failed :: "(string \<times> error option) list \<Rightarrow> error option \<Rightarrow> bool" where
  "write_failed new r =
     (new \<noteq> [] \<and> all_written (butlast new) \<and>
      (case snd (last new) of
         None \<Rightarrow> False
       | Some werr \<Rightarrow>
           (case r of
              Some (WrapError a msg inner) \<Rightarrow>
                msg = ''writing output: '' @ Error werr \<and> inner = werr
            | Some (ErrorString a s) \<Rightarrow> False
            | Some (CorpusErrors es) \<Rightarrow> False
            | None \<Rightarrow> False)))"

text \<open>
  \<open>dumpEntry\<close> is the part of the loop body of \<open>dumpFiles\<close> that writes one entry: the
  separator in the multi-argument form, then the value lines.
\<close>

definition dumpEntry ::
  "'w writer \<Rightarrow> nat \<Rightarrow> string list \<Rightarrow> 'w \<Rightarrow> nat \<Rightarrow> error option \<times> 'w \<times> nat" where
  "dumpEntry wr argCount lines w h =
     (case (if argCount > 1 then fmt_Fprintln wr w (In multiArgSep) else (None, w)) of
        (Some err, w1) \<Rightarrow> (case writeErr (Some err) h of (e, h2) \<Rightarrow> (e, w1, h2))
      | (None, w1) \<Rightarrow> dumpLines wr lines w1 h)"

text \<open>
  \<open>fatal_signal s\<close>: \<open>s\<close> is an error that \<open>Capture\<close> returns rather than absorbs. It is
  an error that matches none of the four exported errors, or an aggregate whose last
  element matches \<open>ErrEmptyCorpus\<close> and no validation error.
\<close>

definition fatal_signal :: "error \<Rightarrow> bool" where
  "fatal_signal s =
     (case s of
        CorpusErrors es \<Rightarrow>
          es \<noteq> [] \<and> \<not> is_CorpusErrors (last es) \<and> \<not> IsValidationError (Some (last es)) \<and>
          errors_Is (Some (last es)) (Some ErrEmptyCorpus)
      | ErrorString a m \<Rightarrow> opaque s
      | WrapError a m e \<Rightarrow> opaque s)"

text \<open>The corpus directories of the package's tests.\<close>

definition sigleData1 :: string where
  "sigleData1 = [LF, LF] @ ''uint(3)'' @ [LF, LF]"

definition sigleData2 :: string where
  "sigleData2 = ''uint(5)''"

definition multiData1 :: string where
  "multiData1 =
     [LF, LF] @ ''string('' @ [DQ] @ ''foo'' @ [DQ] @ '')'' @ [LF, LF] @ ''uint(8)'' @ [LF, LF]"

definition multiData2 :: string where
  "multiData2 = ''string('' @ [DQ] @ ''bar'' @ [DQ] @ '')'' @ [LF] @ ''uint(13)''"

definition single_corpus :: FS where
  "single_corpus =
     dirFS ''single'' [(''1'', corpusFile sigleData1), (''2'', corpusFile sigleData2)]"

definition multi_corpus :: FS where
  "multi_corpus =
     dirFS ''multi'' [(''1'', corpusFile multiData1), (''2'', corpusFile multiData2)]"

definition multi_in_single_corpus :: FS where
  "multi_in_single_corpus =
     dirFS ''multi-in-single''
       [(''1'', corpusFile sigleData1), (''2'', corpusFile multiData1),
        (''3'', corpusFile sigleData2)]"

definition badMulti_corpus :: FS where
  "badMulti_corpus =
     dirFS ''badMulti''
       [(''1'', corpusFile []), (''2'', corpusFile multiData1),
        (''3'', corpusFile multiData2), (''4'', corpusFile [])]"

text \<open>The entries of the files that validate, in listing order.\<close>

definition valid_entries :: "stdlib \<Rightarrow> FS \<Rightarrow> string \<Rightarrow> DirEntry list \<Rightarrow> string list list" where
  "valid_entries lib fsys dir files =
     concat (map (\<lambda>f. case entry lib fsys dir f of Inl e \<Rightarrow> [] | Inr ls \<Rightarrow> [ls]) files)"

text \<open>
  A directory whose listing names a file that is gone when it is read (removed between
  the listing and the read): \<open>listedFS d names files\<close> lists \<open>names\<close> and reads
  \<open>files\<close>. In \<open>vanished_corpus\<close> the file is met after the first valid entry, in
  \<open>vanished_first_corpus\<close> before it.
\<close>

definition listedFS :: "string \<Rightarrow> string list \<Rightarrow> (string \<times> string) list \<Rightarrow> FS" where
  "listedFS d names files =
     \<lparr>ReadDir = (\<lambda>p. if p = d
                      then Inr (map (\<lambda>n. \<lparr>Name = n, IsRegular = True\<rparr>) names)
                      else Inl (WrapError 101 (''open '' @ p @ '': file does not exist'')
                                  ErrNotExist)),
      ReadFile = ReadFile (dirFS d files)\<rparr>"

definition vanished_corpus :: FS where
  "vanished_corpus =
     listedFS ''vanished'' [''1'', ''badVer'', ''gone'', ''2'']
       [(''1'', corpusFile sigleData1), (''badVer'', ''foo'' @ [LF]),
        (''2'', corpusFile sigleData2)]"

definition vanished_first_corpus :: FS where
  "vanished_first_corpus =
     listedFS ''vanished'' [''badVer'', ''gone'', ''1'']
       [(''1'', corpusFile sigleData1), (''badVer'', ''foo'' @ [LF])]"

section \<open>Properties of the aggregate\<close>

subsection \<open>Auxiliary facts\<close>

lemma Capture_plain:
  "\<not> is_CorpusErrors c \<Longrightarrow> Capture e (Some c) =
     (if IsValidationError (Some c) then (None, e @ [c])
      else if errors_Is (Some c) (Some ErrEmptyCorpus)
      then (Some (CorpusErrors (e @ [c])), e @ [c])
      else (Some c, e))"
  by (cases c)
    (simp_all add: CorpusErrors_append_def CorpusErrors_AsError_def CorpusErrors_empty_def Let_def)

declare Capture.simps(3) [simp del] Capture.simps(4) [simp del]

lemma CorpusErrors_Is_plain:
  "\<not> is_CorpusErrors t \<Longrightarrow>
   CorpusErrors_Is e (Some t) = (e \<noteq> [] \<and> errors_is (last e) t)"
  by (cases t) (simp_all add: CorpusErrors_last_eq)

lemma errors_is_CorpusErrors_plain:
  "\<not> is_CorpusErrors t \<Longrightarrow> errors_is (CorpusErrors e) t = (\<exists>x\<in>set e. errors_is x t)"
proof (induction e rule: rev_induct)
  case Nil
  then show ?case by (subst errors_is_CorpusErrors) (simp add: CorpusErrors_Is_plain)
next
  case (snoc x xs)
  have "errors_is (CorpusErrors (xs @ [x])) t =
      (errors_is x t \<or> (xs \<noteq> [] \<and> errors_is (CorpusErrors xs) t))"
    using snoc.prems by (subst errors_is_CorpusErrors) (simp add: CorpusErrors_Is_plain)
  also have "\<dots> = (\<exists>y\<in>set (xs @ [x]). errors_is y t)"
    using snoc by auto
  finally show ?case .
qed

lemma Capture_range_append:
  "Capture_range e (xs @ ys) =
     (case Capture_range e xs of
        (Some r, e') \<Rightarrow> (Some r, e')
      | (None, e') \<Rightarrow> Capture_range e' ys)"
  by (induction xs arbitrary: e) (auto split: prod.splits option.splits)

lemma sentinel_defs:
  "ErrEmptyCorpus = ErrorString 0 ''no valid fuzz corpus files in directory''"
  "ErrMalformedEntry = ErrorString 1 ''must include version and at least one value''"
  "ErrUnsupportedVersion = ErrorString 2 ''unsupported encoding version''"
  "ErrInconsistentArgCount = ErrorString 3 ''inconsistent arg count in corpus entry''"
  by (simp_all add: ErrEmptyCorpus_def ErrMalformedEntry_def ErrUnsupportedVersion_def
      ErrInconsistentArgCount_def)

lemma errors_Is_WrapError_sentinel:
  "k \<in> set sentinels \<Longrightarrow>
   errors_Is (Some (WrapError a m c)) (Some k) = errors_Is (Some c) (Some k)"
  by (auto simp: sentinels_def sentinel_defs)

lemma IsValidationError_WrapError:
  "IsValidationError (Some (WrapError a m c)) = IsValidationError (Some c)"
  by (simp add: IsValidationError_def sentinel_defs)

lemma Capture_range_absorbed:
  "list_all (\<lambda>x. \<not> is_CorpusErrors x \<and> IsValidationError (Some x)) vs \<Longrightarrow>
   Capture_range e vs = (None, e @ vs)"
  by (induction vs arbitrary: e) (simp_all add: Capture_plain)

lemma Capture_range_abort:
  assumes "list_all (\<lambda>x. \<not> is_CorpusErrors x \<and> IsValidationError (Some x)) vs"
    and "\<not> is_CorpusErrors c" and "\<not> IsValidationError (Some c)"
    and "errors_Is (Some c) (Some ErrEmptyCorpus)"
  shows "Capture_range e (vs @ c # rest) = (Some (CorpusErrors (e @ vs @ [c])), e @ vs @ [c])"
  using assms by (simp add: Capture_range_append Capture_range_absorbed Capture_plain)

lemma CorpusErrors_empty_iff [simp]: "CorpusErrors_empty e = (e = [])"
  by (simp add: CorpusErrors_empty_def)

lemma errors_is_refl_plain: "\<not> is_CorpusErrors A \<Longrightarrow> errors_is A A"
  by (cases A) simp_all

lemma CorpusErrors_Is_aggregate:
  "CorpusErrors_Is e (Some (CorpusErrors t)) =
     (if e = [] \<or> t = [] then (e = []) = (t = [])
      else \<forall>x\<in>set t. errors_is (CorpusErrors e) x)"
  by (simp add: CorpusErrors_empty_def list_all_iff)

lemma CorpusErrors_Is_empty: "CorpusErrors_Is [] (Some t) = (t = CorpusErrors [])"
  by (cases t) (auto simp: CorpusErrors_last_eq CorpusErrors_empty_def)

section \<open>The entry reader\<close>

subsection \<open>Auxiliary facts\<close>

lemma readLines_range_filter:
  "readLines_range lib vs acc =
     acc @ filter (\<lambda>l. l \<noteq> []) (map (bytes_TrimSpace lib) vs)"
  by (induction vs arbitrary: acc) (simp_all add: Let_def)

lemma bytes_Split_from_ne: "bytes_Split_from b sep cur \<noteq> []"
  by (induction b arbitrary: cur) simp_all

lemma strings_Join_Cons:
  "xs \<noteq> [] \<Longrightarrow> strings_Join (x # xs) sep = x @ sep @ strings_Join xs sep"
  by (cases xs) simp_all

lemma bytes_Split_from_join:
  "strings_Join (bytes_Split_from b sep cur) [sep] = cur @ b"
  by (induction b arbitrary: cur) (simp_all add: strings_Join_Cons bytes_Split_from_ne)

lemma bytes_Split_from_pieces:
  "sep \<notin> set cur \<Longrightarrow> list_all (\<lambda>p. sep \<notin> set p) (bytes_Split_from b sep cur)"
  by (induction b arbitrary: cur) simp_all

lemma bytes_Split_from_length:
  "length (bytes_Split_from b sep cur) = Suc (count_list b sep)"
  by (induction b arbitrary: cur) simp_all

lemma strings_TrimSuffix_CR:
  "strings_TrimSuffix (u @ [c]) [c] = u"
  "(x = [] \<or> last x \<noteq> c) \<Longrightarrow> strings_TrimSuffix x [c] = x"
   apply (simp add: strings_TrimSuffix_def)
  apply (cases x rule: rev_cases)
   apply (simp_all add: strings_TrimSuffix_def)
  done

lemma readLines_ReadFile_Inr:
  assumes "ReadFile fsys name = Inr b"
  shows "readLines lib fsys name h =
     (let s = bytes_Split b LF; v = strings_TrimSuffix (hd s) [CR];
          vals = filter (\<lambda>l. l \<noteq> []) (map (bytes_TrimSpace lib) (tl s)) in
      if length s < 2 then (Inl ErrMalformedEntry, h)
      else if v \<noteq> ''go test fuzz v1''
      then (Inl (WrapError h (''unsupported encoding version: '' @ strconv_Quote lib v)
                   ErrUnsupportedVersion), Suc h)
      else if vals = [] then (Inl ErrMalformedEntry, h)
      else (Inr vals, h))"
  using assms
  by (auto simp: readLines_def Let_def readLines_range_filter fmt_Errorf_def encVersion1_def
      ErrUnsupportedVersion_def hd_conv_nth drop_Suc bytes_Split_def bytes_Split_from_ne)


lemmas fixture_defs = dirFS_def test_lib_def corpusFile_def encVersion1_def LF_def CR_def TAB_def
  DQ_def asciiSpace_def bytes_Split_def strings_TrimSuffix_def

subsection \<open>Capture\<close>

text \<open>
  C1. For every aggregate \<open>e\<close> and every candidate passed to \<open>Capture\<close>: a nil candidate
  is a no-op returning nil. For a non-nil candidate \<open>c\<close> that is not itself an aggregate
  (that case is C2): when \<open>c\<close> matches \<open>ErrMalformedEntry\<close>, \<open>ErrUnsupportedVersion\<close> or
  \<open>ErrInconsistentArgCount\<close>, \<open>c\<close> is appended to \<open>e\<close> and nil is returned; when it
  matches none of these and matches \<open>ErrEmptyCorpus\<close>, \<open>c\<close> is appended and the aggregate
  itself, now holding \<open>c\<close>, is returned; any other error is returned unchanged and \<open>e\<close>
  is left as it was. The kinds are tested in this order, by \<open>errors.Is\<close>, and wrapping an
  error with \<open>fmt.Errorf\<close> does not change which of the four exported errors it matches.
\<close>

theorem C1_Capture_by_kind:
  "Capture e None = (None, e)
   \<and> (\<not> is_CorpusErrors c \<and> IsValidationError (Some c) \<longrightarrow>
        Capture e (Some c) = (None, e @ [c]))
   \<and> (\<not> is_CorpusErrors c \<and> \<not> IsValidationError (Some c) \<and>
        errors_Is (Some c) (Some ErrEmptyCorpus) \<longrightarrow>
        Capture e (Some c) = (Some (CorpusErrors (e @ [c])), e @ [c]))
   \<and> (\<not> is_CorpusErrors c \<and> \<not> IsValidationError (Some c) \<and>
        \<not> errors_Is (Some c) (Some ErrEmptyCorpus) \<longrightarrow>
        Capture e (Some c) = (Some c, e))
   \<and> (IsValidationError (Some c) =
        (errors_Is (Some c) (Some ErrMalformedEntry) \<or>
         errors_Is (Some c) (Some ErrUnsupportedVersion) \<or>
         errors_Is (Some c) (Some ErrInconsistentArgCount)))
   \<and> (k \<in> set sentinels \<longrightarrow>
        errors_Is (Some (WrapError a m c)) (Some k) = errors_Is (Some c) (Some k))"
  using errors_Is_WrapError_sentinel[of k a m c]
  by (simp add: Capture_plain IsValidationError_def)

text \<open>
  An instance of C1: a wrapped \<open>ErrMalformedEntry\<close> is absorbed, \<open>ErrEmptyCorpus\<close> is
  appended and the aggregate returned, and an unrelated error passes through.
\<close>

theorem C1_Capture_by_kind_witness:
  "Capture [ErrUnsupportedVersion] (Some (WrapError 7 ''parsing foo'' ErrMalformedEntry)) =
     (None, [ErrUnsupportedVersion, WrapError 7 ''parsing foo'' ErrMalformedEntry])
   \<and> Capture [ErrUnsupportedVersion] (Some ErrEmptyCorpus) =
     (Some (CorpusErrors [ErrUnsupportedVersion, ErrEmptyCorpus]),
      [ErrUnsupportedVersion, ErrEmptyCorpus])
   \<and> Capture [ErrUnsupportedVersion] (Some (ErrorString 9 ''snap'')) =
     (Some (ErrorString 9 ''snap''), [ErrUnsupportedVersion])
   \<and> errors_Is (Some (WrapError 7 ''parsing foo'' ErrMalformedEntry)) (Some ErrMalformedEntry)"
proof -
  let ?w = "WrapError 7 ''parsing foo'' ErrMalformedEntry"
  have v: "\<not> is_CorpusErrors ?w \<and> IsValidationError (Some ?w)"
    by (simp add: IsValidationError_def sentinel_defs)
  have m: "errors_Is (Some ErrMalformedEntry) (Some ErrMalformedEntry)"
    "ErrMalformedEntry \<in> set sentinels"
    by (simp_all add: sentinel_defs sentinels_def)
  have c: "\<not> is_CorpusErrors ErrEmptyCorpus \<and> \<not> IsValidationError (Some ErrEmptyCorpus) \<and>
      errors_Is (Some ErrEmptyCorpus) (Some ErrEmptyCorpus)"
    by (simp add: IsValidationError_def sentinel_defs)
  have s: "\<not> is_CorpusErrors (ErrorString 9 ''snap'') \<and>
      \<not> IsValidationError (Some (ErrorString 9 ''snap'')) \<and>
      \<not> errors_Is (Some (ErrorString 9 ''snap'')) (Some ErrEmptyCorpus)"
    by (simp add: IsValidationError_def sentinel_defs)
  have 1: "Capture [ErrUnsupportedVersion] (Some ?w) = (None, [ErrUnsupportedVersion, ?w])"
    using C1_Capture_by_kind[where e = "[ErrUnsupportedVersion]" and c = ?w] v
    unfolding append.simps by (elim conjE) simp
  have 2: "Capture [ErrUnsupportedVersion] (Some ErrEmptyCorpus) =
     (Some (CorpusErrors [ErrUnsupportedVersion, ErrEmptyCorpus]),
      [ErrUnsupportedVersion, ErrEmptyCorpus])"
    using C1_Capture_by_kind[where e = "[ErrUnsupportedVersion]" and c = ErrEmptyCorpus] c
    unfolding append.simps by (elim conjE) simp
  have 3: "Capture [ErrUnsupportedVersion] (Some (ErrorString 9 ''snap'')) =
     (Some (ErrorString 9 ''snap''), [ErrUnsupportedVersion])"
    using C1_Capture_by_kind[where e = "[ErrUnsupportedVersion]"
        and c = "ErrorString 9 ''snap''"] s
    unfolding append.simps by (elim conjE) simp
  have 4: "errors_Is (Some ?w) (Some ErrMalformedEntry)"
    using C1_Capture_by_kind[where c = ErrMalformedEntry and k = ErrMalformedEntry and a = 7
      and m = "''parsing foo''"] m
    by simp
  from 1 2 3 4 show ?thesis by simp
qed

text \<open>
  C2. When the candidate passed to \<open>Capture\<close> is itself an aggregate, its elements are
  captured into \<open>e\<close> one at a time in their stored order; the first element whose capture
  returns a non-nil error stops the loop with that error, and the elements after it are not
  processed. In particular an element matching \<open>ErrEmptyCorpus\<close>, after elements that are
  absorbed, makes the whole call return the aggregate, also through a nested aggregate.
\<close>

theorem C2_Capture_aggregate:
  "Capture e (Some (CorpusErrors [])) = (None, e)
   \<and> Capture e (Some (CorpusErrors (x # xs))) =
       (case Capture e (Some x) of
          (Some r, e') \<Rightarrow> (Some r, e')
        | (None, e') \<Rightarrow> Capture e' (Some (CorpusErrors xs)))
   \<and> (fst (Capture e (Some x)) \<noteq> None \<longrightarrow>
        Capture e (Some (CorpusErrors (x # xs))) = Capture e (Some x))
   \<and> Capture e (Some (CorpusErrors (xs @ ys))) =
       (case Capture e (Some (CorpusErrors xs)) of
          (Some r, e') \<Rightarrow> (Some r, e')
        | (None, e') \<Rightarrow> Capture e' (Some (CorpusErrors ys)))
   \<and> (list_all (\<lambda>x. \<not> is_CorpusErrors x \<and> IsValidationError (Some x)) vs \<and>
       \<not> is_CorpusErrors c \<and> \<not> IsValidationError (Some c) \<and>
       errors_Is (Some c) (Some ErrEmptyCorpus) \<longrightarrow>
        Capture e (Some (CorpusErrors (vs @ c # rest))) =
          (Some (CorpusErrors (e @ vs @ [c])), e @ vs @ [c])
        \<and> Capture e (Some (CorpusErrors (CorpusErrors (vs @ c # rest) # rest'))) =
          (Some (CorpusErrors (e @ vs @ [c])), e @ vs @ [c]))"
proof -
  have a: "Capture e (Some (CorpusErrors [])) = (None, e)" by simp
  have b: "Capture e (Some (CorpusErrors (x # xs))) =
       (case Capture e (Some x) of
          (Some r, e') \<Rightarrow> (Some r, e')
        | (None, e') \<Rightarrow> Capture e' (Some (CorpusErrors xs)))"
    by (simp split: prod.splits option.splits)
  have c: "fst (Capture e (Some x)) \<noteq> None \<longrightarrow>
      Capture e (Some (CorpusErrors (x # xs))) = Capture e (Some x)"
    by (auto split: prod.splits option.splits)
  have d: "Capture e (Some (CorpusErrors (xs @ ys))) =
       (case Capture e (Some (CorpusErrors xs)) of
          (Some r, e') \<Rightarrow> (Some r, e')
        | (None, e') \<Rightarrow> Capture e' (Some (CorpusErrors ys)))"
    by (simp add: Capture_range_append split: prod.splits option.splits)
  have f: "list_all (\<lambda>x. \<not> is_CorpusErrors x \<and> IsValidationError (Some x)) vs \<and>
       \<not> is_CorpusErrors c \<and> \<not> IsValidationError (Some c) \<and>
       errors_Is (Some c) (Some ErrEmptyCorpus) \<longrightarrow>
        Capture e (Some (CorpusErrors (vs @ c # rest))) =
          (Some (CorpusErrors (e @ vs @ [c])), e @ vs @ [c])
        \<and> Capture e (Some (CorpusErrors (CorpusErrors (vs @ c # rest) # rest'))) =
          (Some (CorpusErrors (e @ vs @ [c])), e @ vs @ [c])"
    using Capture_range_abort[of vs c e rest] by simp
  from a b c d f show ?thesis by blast
qed

text \<open>
  An instance of C2: \<open>ErrEmptyCorpus\<close> in second place stops the capture, directly and
  inside a nested aggregate, and an unrelated first element stops it at once.
\<close>

theorem C2_Capture_aggregate_witness:
  "Capture [] (Some (CorpusErrors [ErrUnsupportedVersion, ErrEmptyCorpus, ErrMalformedEntry])) =
     (Some (CorpusErrors [ErrUnsupportedVersion, ErrEmptyCorpus]),
      [ErrUnsupportedVersion, ErrEmptyCorpus])
   \<and> Capture [] (Some (CorpusErrors
        [CorpusErrors [ErrUnsupportedVersion, ErrEmptyCorpus, ErrMalformedEntry],
         ErrInconsistentArgCount])) =
     (Some (CorpusErrors [ErrUnsupportedVersion, ErrEmptyCorpus]),
      [ErrUnsupportedVersion, ErrEmptyCorpus])
   \<and> Capture [] (Some (CorpusErrors [ErrorString 9 ''snap'', ErrMalformedEntry])) =
     Capture [] (Some (ErrorString 9 ''snap''))"
proof -
  have h: "list_all (\<lambda>x. \<not> is_CorpusErrors x \<and> IsValidationError (Some x))
        [ErrUnsupportedVersion] \<and>
      \<not> is_CorpusErrors ErrEmptyCorpus \<and> \<not> IsValidationError (Some ErrEmptyCorpus) \<and>
      errors_Is (Some ErrEmptyCorpus) (Some ErrEmptyCorpus)"
    by (simp add: IsValidationError_def sentinel_defs)
  have s: "fst (Capture [] (Some (ErrorString 9 ''snap''))) \<noteq> None"
    by (simp add: Capture_plain IsValidationError_def sentinel_defs)
  from C2_Capture_aggregate[where e = "[]" and vs = "[ErrUnsupportedVersion]"
      and c = ErrEmptyCorpus and rest = "[ErrMalformedEntry]"
      and rest' = "[ErrInconsistentArgCount]" and x = "ErrorString 9 ''snap''"
      and xs = "[ErrMalformedEntry]" and ys = "[]", unfolded append.simps] h s
  show ?thesis by blast
qed

subsection \<open>The matching relation\<close>

text \<open>
  C3, as the code has it. With an aggregate as target: two empty aggregates match; when
  exactly one is empty they do not; two non-empty aggregates match if and only if the
  receiver as a whole matches every element of the target under \<open>errors.Is\<close>, and when
  no element of the target is itself an aggregate this is the case if and only if every
  element of the target matches some element of the receiver. With a target that is not an
  aggregate: the receiver matches if and only if it is non-empty and its last element
  matches the target, so the empty receiver matches no such target. For errors \<open>A\<close>, \<open>B\<close>,
  \<open>C\<close> that are not aggregates, with \<open>C\<close> matched by neither \<open>A\<close> nor \<open>B\<close>, the aggregate
  \<open>{A,B}\<close> matches \<open>{A}\<close> and \<open>{B}\<close> and not \<open>{A,B,C}\<close>; the empty aggregate matches the
  empty aggregate only.
\<close>

theorem C3_Is_covering:
  "CorpusErrors_Is [] (Some (CorpusErrors []))
   \<and> (e \<noteq> [] \<longrightarrow>
        \<not> CorpusErrors_Is e (Some (CorpusErrors [])) \<and>
        \<not> CorpusErrors_Is [] (Some (CorpusErrors e)))
   \<and> (e \<noteq> [] \<and> t \<noteq> [] \<longrightarrow>
        CorpusErrors_Is e (Some (CorpusErrors t)) =
          (\<forall>x\<in>set t. errors_Is (Some (CorpusErrors e)) (Some x)))
   \<and> (e \<noteq> [] \<and> t \<noteq> [] \<and> (\<forall>x\<in>set t. \<not> is_CorpusErrors x) \<longrightarrow>
        CorpusErrors_Is e (Some (CorpusErrors t)) =
          (\<forall>x\<in>set t. \<exists>y\<in>set e. errors_Is (Some y) (Some x)))
   \<and> (\<not> is_CorpusErrors p \<longrightarrow>
        CorpusErrors_Is e (Some p) = (e \<noteq> [] \<and> errors_Is (Some (last e)) (Some p)) \<and>
        \<not> CorpusErrors_Is [] (Some p))
   \<and> (\<not> is_CorpusErrors A \<and> \<not> is_CorpusErrors B \<and> \<not> is_CorpusErrors C \<and>
       \<not> errors_Is (Some A) (Some C) \<and> \<not> errors_Is (Some B) (Some C) \<longrightarrow>
        CorpusErrors_Is [A, B] (Some (CorpusErrors [A])) \<and>
        CorpusErrors_Is [A, B] (Some (CorpusErrors [B])) \<and>
        \<not> CorpusErrors_Is [A, B] (Some (CorpusErrors [A, B, C])))
   \<and> CorpusErrors_Is [] (Some q) = (q = CorpusErrors [])"
proof -
  have a: "CorpusErrors_Is [] (Some (CorpusErrors []))"
    by (simp add: list_all_iff)
  have b: "e \<noteq> [] \<longrightarrow>
        \<not> CorpusErrors_Is e (Some (CorpusErrors [])) \<and>
        \<not> CorpusErrors_Is [] (Some (CorpusErrors e))"
    by (simp add: list_all_iff)
  have c: "e \<noteq> [] \<and> t \<noteq> [] \<longrightarrow>
        CorpusErrors_Is e (Some (CorpusErrors t)) =
          (\<forall>x\<in>set t. errors_Is (Some (CorpusErrors e)) (Some x))"
    by (simp add: list_all_iff)
  have d: "e \<noteq> [] \<and> t \<noteq> [] \<and> (\<forall>x\<in>set t. \<not> is_CorpusErrors x) \<longrightarrow>
        CorpusErrors_Is e (Some (CorpusErrors t)) =
          (\<forall>x\<in>set t. \<exists>y\<in>set e. errors_Is (Some y) (Some x))"
    by (auto simp: list_all_iff errors_is_CorpusErrors_plain)
  have f: "\<not> is_CorpusErrors p \<longrightarrow>
        CorpusErrors_Is e (Some p) = (e \<noteq> [] \<and> errors_Is (Some (last e)) (Some p)) \<and>
        \<not> CorpusErrors_Is [] (Some p)"
    by (simp add: CorpusErrors_Is_plain)
  have g: "\<not> is_CorpusErrors A \<and> \<not> is_CorpusErrors B \<and> \<not> is_CorpusErrors C \<and>
       \<not> errors_Is (Some A) (Some C) \<and> \<not> errors_Is (Some B) (Some C) \<longrightarrow>
        CorpusErrors_Is [A, B] (Some (CorpusErrors [A])) \<and>
        CorpusErrors_Is [A, B] (Some (CorpusErrors [B])) \<and>
        \<not> CorpusErrors_Is [A, B] (Some (CorpusErrors [A, B, C]))"
    by (simp add: list_all_iff errors_is_CorpusErrors_plain errors_is_refl_plain)
  have h: "CorpusErrors_Is [] (Some q) = (q = CorpusErrors [])"
    by (rule CorpusErrors_Is_empty)
  from a b c d f g h show ?thesis by blast
qed

text \<open>
  An instance of C3 on the exported errors.
\<close>

theorem C3_Is_covering_witness:
  "CorpusErrors_Is [ErrMalformedEntry, ErrUnsupportedVersion]
      (Some (CorpusErrors [ErrUnsupportedVersion, ErrMalformedEntry]))
   \<and> \<not> CorpusErrors_Is [ErrMalformedEntry, ErrUnsupportedVersion] (Some (CorpusErrors []))
   \<and> \<not> CorpusErrors_Is [] (Some (CorpusErrors [ErrMalformedEntry, ErrUnsupportedVersion]))
   \<and> CorpusErrors_Is [ErrMalformedEntry, ErrUnsupportedVersion] (Some ErrUnsupportedVersion)
   \<and> \<not> CorpusErrors_Is [] (Some ErrUnsupportedVersion)
   \<and> CorpusErrors_Is [ErrMalformedEntry, ErrUnsupportedVersion]
      (Some (CorpusErrors [ErrMalformedEntry]))
   \<and> CorpusErrors_Is [ErrMalformedEntry, ErrUnsupportedVersion]
      (Some (CorpusErrors [ErrUnsupportedVersion]))
   \<and> \<not> CorpusErrors_Is [ErrMalformedEntry, ErrUnsupportedVersion]
      (Some (CorpusErrors [ErrMalformedEntry, ErrUnsupportedVersion, ErrEmptyCorpus]))"
proof -
  let ?e = "[ErrMalformedEntry, ErrUnsupportedVersion]"
  let ?t = "[ErrUnsupportedVersion, ErrMalformedEntry]"
  have ne: "?e \<noteq> [] \<and> ?t \<noteq> [] \<and> (\<forall>x\<in>set ?t. \<not> is_CorpusErrors x)"
    by (simp add: sentinel_defs)
  have cover: "\<forall>x\<in>set ?t. \<exists>y\<in>set ?e. errors_Is (Some y) (Some x)"
    by (simp add: sentinel_defs)
  have lst: "\<not> is_CorpusErrors ErrUnsupportedVersion \<and>
      errors_Is (Some (last ?e)) (Some ErrUnsupportedVersion)"
    by (simp add: sentinel_defs)
  have abc: "\<not> is_CorpusErrors ErrMalformedEntry \<and> \<not> is_CorpusErrors ErrUnsupportedVersion \<and>
      \<not> is_CorpusErrors ErrEmptyCorpus \<and>
      \<not> errors_Is (Some ErrMalformedEntry) (Some ErrEmptyCorpus) \<and>
      \<not> errors_Is (Some ErrUnsupportedVersion) (Some ErrEmptyCorpus)"
    by (simp add: sentinel_defs)
  from C3_Is_covering[where e = ?e and t = ?t and p = ErrUnsupportedVersion
      and A = ErrMalformedEntry and B = ErrUnsupportedVersion and C = ErrEmptyCorpus]
    ne cover lst abc
  show ?thesis by blast
qed

text \<open>
  C3 as the specification words it fails when an element of the target is itself an
  aggregate. The receiver \<open>{ErrMalformedEntry, ErrUnsupportedVersion}\<close> matches the target
  whose only element is that same aggregate, although this element matches neither element
  of the receiver; and the receiver whose only element is the empty aggregate does not match
  the equal target, although the empty aggregate matches itself.
\<close>

theorem C3_counterexample:
  "CorpusErrors_Is [ErrMalformedEntry, ErrUnsupportedVersion]
     (Some (CorpusErrors [CorpusErrors [ErrMalformedEntry, ErrUnsupportedVersion]]))
   \<and> \<not> errors_Is (Some ErrMalformedEntry)
        (Some (CorpusErrors [ErrMalformedEntry, ErrUnsupportedVersion]))
   \<and> \<not> errors_Is (Some ErrUnsupportedVersion)
        (Some (CorpusErrors [ErrMalformedEntry, ErrUnsupportedVersion]))
   \<and> \<not> CorpusErrors_Is [CorpusErrors []] (Some (CorpusErrors [CorpusErrors []]))
   \<and> errors_Is (Some (CorpusErrors [])) (Some (CorpusErrors []))"
  by code_simp

text \<open>
  C9. \<open>Unwrap\<close> of an aggregate is the aggregate without its last element, and nil when
  nothing is left (or when the aggregate was empty already); \<open>AsError\<close> is nil exactly for
  the empty aggregate and the aggregate itself otherwise.
\<close>

theorem C9_Unwrap_AsError:
  "CorpusErrors_Unwrap e =
     (if e = [] then None
      else if butlast e = [] then None
      else Some (CorpusErrors (butlast e)))
   \<and> (CorpusErrors_AsError e = None) = (e = [])
   \<and> CorpusErrors_AsError e = (if e = [] then None else Some (CorpusErrors e))"
  by (simp add: CorpusErrors_Unwrap_eq CorpusErrors_AsError_def CorpusErrors_empty_def)

subsection \<open>Decoding one file\<close>

text \<open>
  C6. For the bytes \<open>b\<close> of a file given to \<open>readLines\<close>: \<open>b\<close> is split at the line feeds
  (joining the pieces with line feeds gives \<open>b\<close> back, no piece holds a line feed, and there
  is one piece more than line feeds); one trailing carriage return of the first piece is
  stripped before the comparison. Fewer than two pieces give \<open>ErrMalformedEntry\<close>; a first
  line other than \<open>go test fuzz v1\<close> gives an error that matches \<open>ErrUnsupportedVersion\<close>
  and whose message ends with the observed text, as \<open>%q\<close> quotes it; otherwise the
  remaining pieces are trimmed, the empty ones dropped, and the others are returned in their
  order, or \<open>ErrMalformedEntry\<close> when none is left.
\<close>

theorem C6_readLines:
  assumes "ReadFile fsys name = Inr b"
  shows "let s = bytes_Split b LF;
             v = strings_TrimSuffix (hd s) [CR];
             vals = filter (\<lambda>l. l \<noteq> []) (map (bytes_TrimSpace lib) (tl s)) in
     strings_Join s [LF] = b \<and> list_all (\<lambda>p. LF \<notin> set p) s \<and>
     length s = Suc (count_list b LF)
     \<and> (\<forall>u. strings_TrimSuffix (u @ [CR]) [CR] = u)
     \<and> (\<forall>x. (x = [] \<or> last x \<noteq> CR) \<longrightarrow> strings_TrimSuffix x [CR] = x)
     \<and> (length s < 2 \<longrightarrow> readLines lib fsys name h = (Inl ErrMalformedEntry, h))
     \<and> (2 \<le> length s \<and> v \<noteq> ''go test fuzz v1'' \<longrightarrow>
          (\<exists>err. readLines lib fsys name h = (Inl err, Suc h) \<and>
             err = WrapError h (''unsupported encoding version: '' @ strconv_Quote lib v)
                     ErrUnsupportedVersion \<and>
             errors_Is (Some err) (Some ErrUnsupportedVersion) \<and>
             Error err = ''unsupported encoding version: '' @ strconv_Quote lib v))
     \<and> (2 \<le> length s \<and> v = ''go test fuzz v1'' \<and> vals = [] \<longrightarrow>
          readLines lib fsys name h = (Inl ErrMalformedEntry, h))
     \<and> (2 \<le> length s \<and> v = ''go test fuzz v1'' \<and> vals \<noteq> [] \<longrightarrow>
          readLines lib fsys name h = (Inr vals, h))"
proof -
  have split: "strings_Join (bytes_Split b LF) [LF] = b"
    "list_all (\<lambda>p. LF \<notin> set p) (bytes_Split b LF)"
    "length (bytes_Split b LF) = Suc (count_list b LF)"
    by (simp_all add: bytes_Split_def bytes_Split_from_join bytes_Split_from_pieces
        bytes_Split_from_length)
  have trim: "\<forall>u. strings_TrimSuffix (u @ [CR]) [CR] = u"
    "\<forall>x. (x = [] \<or> last x \<noteq> CR) \<longrightarrow> strings_TrimSuffix x [CR] = x"
    by (simp_all add: strings_TrimSuffix_CR)
  have isU: "errors_Is (Some (WrapError h m ErrUnsupportedVersion)) (Some ErrUnsupportedVersion)"
    for m by (simp add: ErrUnsupportedVersion_def)
  show ?thesis
    unfolding Let_def
    using split trim isU
    by (simp add: readLines_ReadFile_Inr[OF assms] Let_def)
qed

text \<open>
  Instances of C6: a file with the version line only, one with another first line, one
  without values, and one with a carriage return after the version and white space around
  its value.
\<close>

theorem C6_readLines_witness:
  "readLines test_lib (dirFS ''bad'' [(''verOnly'', encVersion1)]) ''bad/verOnly'' 10 =
     (Inl ErrMalformedEntry, 10)
   \<and> readLines test_lib (dirFS ''bad'' [(''badVer'', ''foo'' @ [LF])]) ''bad/badVer'' 10 =
     (Inl (WrapError 10 (''unsupported encoding version: '' @ [DQ] @ ''foo'' @ [DQ])
            ErrUnsupportedVersion), 11)
   \<and> readLines test_lib (dirFS ''bad'' [(''emptyArgs'', corpusFile '''')]) ''bad/emptyArgs'' 10 =
     (Inl ErrMalformedEntry, 10)
   \<and> readLines test_lib
       (dirFS ''single'' [(''1'', encVersion1 @ [CR, LF, LF] @ '' uint(3) '' @ [CR, LF])])
       ''single/1'' 10 =
     (Inr [''uint(3)''], 10)"
proof -
  have r1: "ReadFile (dirFS ''bad'' [(''verOnly'', encVersion1)]) ''bad/verOnly'' =
      Inr encVersion1"
    by (simp add: dirFS_def)
  have r2: "ReadFile (dirFS ''bad'' [(''badVer'', ''foo'' @ [LF])]) ''bad/badVer'' =
      Inr (''foo'' @ [LF])"
    by (simp add: dirFS_def)
  have r3: "ReadFile (dirFS ''bad'' [(''emptyArgs'', corpusFile '''')]) ''bad/emptyArgs'' =
      Inr (corpusFile '''')"
    by (simp add: dirFS_def)
  have r4: "ReadFile
      (dirFS ''single'' [(''1'', encVersion1 @ [CR, LF, LF] @ '' uint(3) '' @ [CR, LF])])
      ''single/1'' = Inr (encVersion1 @ [CR, LF, LF] @ '' uint(3) '' @ [CR, LF])"
    by (simp add: dirFS_def)
  have 1: "readLines test_lib (dirFS ''bad'' [(''verOnly'', encVersion1)]) ''bad/verOnly'' 10 =
     (Inl ErrMalformedEntry, 10)"
    using C6_readLines[OF r1, where lib = test_lib and h = 10]
    by (simp add: Let_def fixture_defs)
  have 2: "readLines test_lib (dirFS ''bad'' [(''badVer'', ''foo'' @ [LF])]) ''bad/badVer'' 10 =
     (Inl (WrapError 10 (''unsupported encoding version: '' @ [DQ] @ ''foo'' @ [DQ])
            ErrUnsupportedVersion), 11)"
    using C6_readLines[OF r2, where lib = test_lib and h = 10]
    by (simp add: Let_def fixture_defs)
  have 3: "readLines test_lib (dirFS ''bad'' [(''emptyArgs'', corpusFile '''')])
      ''bad/emptyArgs'' 10 = (Inl ErrMalformedEntry, 10)"
    using C6_readLines[OF r3, where lib = test_lib and h = 10]
    by (simp add: Let_def fixture_defs)
  have 4: "readLines test_lib
       (dirFS ''single'' [(''1'', encVersion1 @ [CR, LF, LF] @ '' uint(3) '' @ [CR, LF])])
       ''single/1'' 10 = (Inr [''uint(3)''], 10)"
    using C6_readLines[OF r4, where lib = test_lib and h = 10]
    by (simp add: Let_def fixture_defs)
  from 1 2 3 4 show ?thesis by simp
qed

section \<open>Properties of a scan\<close>

subsection \<open>Files that are rejected\<close>

lemma readLines_entry_Inr:
  "entry lib fsys dir f = Inr ls \<Longrightarrow>
   readLines lib fsys (path_Join lib dir (Name f)) h = (Inr ls, h)"
  by (auto simp: entry_def readLines_def Let_def fmt_Errorf_def split: sum.splits if_splits)

lemma readLines_entry_Inl:
  "entry lib fsys dir f = Inl e0 \<Longrightarrow>
   \<exists>e1 h1. readLines lib fsys (path_Join lib dir (Name f)) h = (Inl e1, h1) \<and>
     same_but_address e1 e0"
  by (auto simp: entry_def readLines_def Let_def fmt_Errorf_def ErrMalformedEntry_def
      split: sum.splits if_splits) (cases e0; simp)

lemma readLines_unreadable:
  "ReadFile fsys (path_Join lib dir (Name f)) = Inl ioerr \<Longrightarrow>
   readLines lib fsys (path_Join lib dir (Name f)) h = (Inl ioerr, h)"
  by (simp add: readLines_def)

lemma same_but_address_Error: "same_but_address e1 e0 \<Longrightarrow> Error e1 = Error e0"
  by (induction e1 e0 rule: same_but_address.induct) simp_all

lemma same_but_address_sentinel:
  "same_but_address e1 e0 \<Longrightarrow> k \<in> set sentinels \<Longrightarrow> errors_is e1 k = errors_is e0 k"
  by (induction e1 e0 rule: same_but_address.induct) (auto simp: sentinels_def sentinel_defs)

lemma same_but_address_IsValidationError:
  "same_but_address e1 e0 \<Longrightarrow> IsValidationError (Some e1) = IsValidationError (Some e0)"
  using same_but_address_sentinel[of e1 e0]
  by (simp add: IsValidationError_def sentinels_def)

lemma readErr_Some:
  "readErr lib (Some e) n h =
     (Some (WrapError h (''reading '' @ strconv_Quote lib n @ '': '' @ Error e) e), Suc h)"
  by (simp add: readErr_def fmt_Errorf_def)

lemma writeErr_Some:
  "writeErr (Some e) h = (Some (WrapError h (''writing output: '' @ Error e) e), Suc h)"
  by (simp add: writeErr_def fmt_Errorf_def)

lemma Capture_wrapped_validation:
  "IsValidationError (Some e) \<Longrightarrow>
   Capture errs (Some (WrapError a m e)) = (None, errs @ [WrapError a m e])"
  by (simp add: Capture_plain IsValidationError_WrapError CorpusErrors_append_def)

lemma opaque_WrapError: "opaque (WrapError a m e) = opaque e"
  by (simp add: opaque_def IsValidationError_WrapError sentinel_defs)

lemma Capture_opaque: "opaque e \<Longrightarrow> \<not> is_CorpusErrors e \<Longrightarrow> Capture errs (Some e) = (Some e, errs)"
  by (simp add: Capture_plain opaque_def)

lemma Capture_wrapped_opaque:
  "opaque e \<Longrightarrow> Capture errs (Some (WrapError a m e)) = (Some (WrapError a m e), errs)"
  by (simp add: Capture_opaque opaque_WrapError)

lemma reported_rejected:
  "entry lib fsys dir f = Inl e0 \<Longrightarrow> same_but_address e1 e0 \<Longrightarrow>
   reported lib fsys dir n
     (WrapError a (''reading '' @ strconv_Quote lib (Name f) @ '': '' @ Error e1) e1) f"
  by (simp add: same_but_address_Error)

lemma firstValid_rejected_prefix:
  "list_all (rejected lib fsys dir) pre \<Longrightarrow>
   \<exists>es h1. list_all2 (reported lib fsys dir n) es pre \<and>
     firstValidFileLines_loop lib fsys dir (pre @ rest) errs h =
     firstValidFileLines_loop lib fsys dir rest (errs @ es) h1"
proof (induction pre arbitrary: errs h)
  case Nil
  have "list_all2 (reported lib fsys dir n) [] [] \<and>
     firstValidFileLines_loop lib fsys dir ([] @ rest) errs h =
     firstValidFileLines_loop lib fsys dir rest (errs @ []) h" by simp
  then show ?case by blast
next
  case (Cons f pre)
  from Cons.prems have rj: "rejected lib fsys dir f"
    and pre: "list_all (rejected lib fsys dir) pre" by simp_all
  from rj obtain e0 where e0: "entry lib fsys dir f = Inl e0"
    and v0: "IsValidationError (Some e0)"
    by (auto simp: rejected_def split: sum.splits)
  from readLines_entry_Inl[OF e0, of h] obtain e1 h1 where
    rl: "readLines lib fsys (path_Join lib dir (Name f)) h = (Inl e1, h1)"
    and sba: "same_but_address e1 e0" by blast
  let ?w = "WrapError h1 (''reading '' @ strconv_Quote lib (Name f) @ '': '' @ Error e1) e1"
  have v1: "IsValidationError (Some e1)"
    using v0 sba by (simp add: same_but_address_IsValidationError)
  from Cons.IH[OF pre, of "errs @ [?w]" "Suc h1"] obtain es h2 where
    es: "list_all2 (reported lib fsys dir n) es pre"
    and loop: "firstValidFileLines_loop lib fsys dir (pre @ rest) (errs @ [?w]) (Suc h1) =
      firstValidFileLines_loop lib fsys dir rest ((errs @ [?w]) @ es) h2" by blast
  have "firstValidFileLines_loop lib fsys dir ((f # pre) @ rest) errs h =
      firstValidFileLines_loop lib fsys dir rest (errs @ (?w # es)) h2"
    using rl loop v1 by (simp add: readErr_Some Capture_wrapped_validation)
  moreover have "list_all2 (reported lib fsys dir n) (?w # es) (f # pre)"
    using es reported_rejected[OF e0 sba] by simp
  ultimately show ?case by blast
qed

lemma rejected_accepted_or_rejected:
  "rejected lib fsys dir f \<Longrightarrow> accepted_or_rejected lib fsys dir f"
  by (simp add: rejected_def accepted_or_rejected_def split: sum.splits)

lemma reported_absorbed:
  assumes "reported lib fsys dir n e f" and "accepted_or_rejected lib fsys dir f"
  shows "\<not> is_CorpusErrors e \<and> IsValidationError (Some e)"
proof (cases e)
  case (WrapError a msg inner)
  show ?thesis
  proof (cases "entry lib fsys dir f")
    case (Inl e0)
    with assms WrapError have "same_but_address inner e0" "IsValidationError (Some e0)"
      by (simp_all add: accepted_or_rejected_def)
    then show ?thesis using WrapError
      by (simp add: IsValidationError_WrapError same_but_address_IsValidationError)
  next
    case (Inr ls)
    with assms WrapError obtain a' m' where "inner = WrapError a' m' ErrInconsistentArgCount"
      by (auto split: error.splits)
    then show ?thesis using WrapError
      by (simp add: IsValidationError_def sentinel_defs)
  qed
qed (use assms in simp_all)

lemma reported_all_absorbed:
  "list_all2 (reported lib fsys dir n) es fs \<Longrightarrow>
   list_all (accepted_or_rejected lib fsys dir) fs \<Longrightarrow>
   list_all (\<lambda>x. \<not> is_CorpusErrors x \<and> IsValidationError (Some x)) es"
  by (induction es fs rule: list_all2_induct) (simp_all add: reported_absorbed)

lemma ErrEmptyCorpus_fatal:
  "\<not> is_CorpusErrors ErrEmptyCorpus" "\<not> IsValidationError (Some ErrEmptyCorpus)"
  "errors_Is (Some ErrEmptyCorpus) (Some ErrEmptyCorpus)"
  by (simp_all add: IsValidationError_def sentinel_defs)

lemma errors_is_ErrEmptyCorpus [simp]: "errors_is ErrEmptyCorpus ErrEmptyCorpus"
  by (simp add: sentinel_defs)

lemma firstValid_all_rejected:
  assumes "list_all (rejected lib fsys dir) files"
  shows "\<exists>es h1. list_all2 (reported lib fsys dir n) es files \<and>
     firstValidFileLines lib fsys dir files h =
       (([], [], Some (CorpusErrors (es @ [ErrEmptyCorpus]))), h1)"
proof -
  from firstValid_rejected_prefix[OF assms, of n "[]" "[]" h] obtain es h1 where
    es: "list_all2 (reported lib fsys dir n) es files"
    and loop: "firstValidFileLines_loop lib fsys dir files [] h =
      firstValidFileLines_loop lib fsys dir [] es h1" by auto
  have "firstValidFileLines lib fsys dir files h =
       (([], [], Some (CorpusErrors (es @ [ErrEmptyCorpus]))), h1)"
    using loop by (simp add: firstValidFileLines_def Capture_plain ErrEmptyCorpus_fatal)
  with es show ?thesis by blast
qed

lemma errors_Is_aggregate_with_EmptyCorpus:
  "errors_Is (Some (CorpusErrors (es @ [ErrEmptyCorpus]))) (Some ErrEmptyCorpus)"
  by (simp add: errors_is_CorpusErrors_plain ErrEmptyCorpus_fatal sentinel_defs)

subsection \<open>A corpus without a valid entry\<close>

text \<open>
  C4. When the directory holds no regular file, \<open>DumpDir\<close> returns \<open>ErrEmptyCorpus\<close>
  itself and leaves the writer as it was. When it holds regular files and \<open>readLines\<close>
  rejects every one of them with a validation error, \<open>DumpDir\<close> returns an aggregate and
  leaves the writer as it was: the aggregate holds, in listing order, the report of every
  file (the error of \<open>readLines\<close> wrapped by \<open>readErr\<close> with the file's name) and then
  \<open>ErrEmptyCorpus\<close>, so that it is not empty and matches \<open>ErrEmptyCorpus\<close> under
  \<open>errors.Is\<close>.
\<close>

theorem C4_EmptyCorpus:
  "(ReadDir fsys dir = Inr listing \<and> filter IsRegular listing = [] \<longrightarrow>
      DumpDir lib wr fsys dir w h = (Returns (Some ErrEmptyCorpus), w, h))
   \<and> (ReadDir fsys dir = Inr listing \<and> filter IsRegular listing \<noteq> [] \<and>
       list_all (rejected lib fsys dir) (filter IsRegular listing) \<longrightarrow>
      (\<exists>es h'. DumpDir lib wr fsys dir w h =
           (Returns (Some (CorpusErrors (es @ [ErrEmptyCorpus]))), w, h') \<and>
         list_all2 (reported lib fsys dir 0) es (filter IsRegular listing) \<and>
         errors_Is (Some (CorpusErrors (es @ [ErrEmptyCorpus]))) (Some ErrEmptyCorpus)))"
proof -
  have a: "ReadDir fsys dir = Inr listing \<and> filter IsRegular listing = [] \<longrightarrow>
      DumpDir lib wr fsys dir w h = (Returns (Some ErrEmptyCorpus), w, h)"
    by (simp add: DumpDir_def corpusFiles_def getFiles_def)
  have b: "\<exists>es h'. DumpDir lib wr fsys dir w h =
           (Returns (Some (CorpusErrors (es @ [ErrEmptyCorpus]))), w, h') \<and>
         list_all2 (reported lib fsys dir 0) es (filter IsRegular listing) \<and>
         errors_Is (Some (CorpusErrors (es @ [ErrEmptyCorpus]))) (Some ErrEmptyCorpus)"
    if rd: "ReadDir fsys dir = Inr listing" and ne: "filter IsRegular listing \<noteq> []"
      and rj: "list_all (rejected lib fsys dir) (filter IsRegular listing)"
  proof -
    let ?files = "filter IsRegular listing"
    from firstValid_all_rejected[OF rj, of 0 h] obtain es h1 where
      es: "list_all2 (reported lib fsys dir 0) es ?files"
      and fv: "firstValidFileLines lib fsys dir ?files h =
        (([], [], Some (CorpusErrors (es @ [ErrEmptyCorpus]))), h1)" by blast
    have ab: "list_all (\<lambda>x. \<not> is_CorpusErrors x \<and> IsValidationError (Some x)) es"
      using reported_all_absorbed[OF es] rj
      by (simp add: list_all_iff rejected_accepted_or_rejected)
    have cf: "corpusFiles fsys dir = Inr ?files"
      using rd ne by (simp add: corpusFiles_def getFiles_def)
    have cap: "Capture_range [] (es @ [ErrEmptyCorpus]) =
        (Some (CorpusErrors (es @ [ErrEmptyCorpus])), es @ [ErrEmptyCorpus])"
      using Capture_range_abort[OF ab ErrEmptyCorpus_fatal, of "[]" "[]"] by simp
    have "DumpDir lib wr fsys dir w h =
        (Returns (Some (CorpusErrors (es @ [ErrEmptyCorpus]))), w, h1)"
      by (simp add: DumpDir_def cf fv cap)
    with es show ?thesis
      using errors_Is_aggregate_with_EmptyCorpus by blast
  qed
  from a b show ?thesis by blast
qed

text \<open>
  Instances of C4: an empty directory, and a directory of two files, one with another
  first line and one with the version line only.
\<close>

theorem C4_EmptyCorpus_witness:
  "DumpDir test_lib Builder (dirFS ''empty'' []) ''empty'' [] 10 =
     (Returns (Some ErrEmptyCorpus), [], 10)
   \<and> (\<exists>es h'.
        DumpDir test_lib Builder
          (dirFS ''bad'' [(''badVer'', ''foo'' @ [LF]), (''verOnly'', encVersion1)])
          ''bad'' [] 10 =
          (Returns (Some (CorpusErrors (es @ [ErrEmptyCorpus]))), [], h') \<and>
        list_all2
          (reported test_lib
             (dirFS ''bad'' [(''badVer'', ''foo'' @ [LF]), (''verOnly'', encVersion1)])
             ''bad'' 0)
          es [\<lparr>Name = ''badVer'', IsRegular = True\<rparr>, \<lparr>Name = ''verOnly'', IsRegular = True\<rparr>] \<and>
        errors_Is (Some (CorpusErrors (es @ [ErrEmptyCorpus]))) (Some ErrEmptyCorpus))"
proof -
  let ?fs = "dirFS ''bad'' [(''badVer'', ''foo'' @ [LF]), (''verOnly'', encVersion1)]"
  let ?l = "[\<lparr>Name = ''badVer'', IsRegular = True\<rparr>, \<lparr>Name = ''verOnly'', IsRegular = True\<rparr>]"
  have e: "ReadDir (dirFS ''empty'' []) ''empty'' = Inr [] \<and> filter IsRegular [] = []"
    by (simp add: dirFS_def)
  have d: "ReadDir ?fs ''bad'' = Inr ?l"
    by (simp add: dirFS_def)
  have f: "filter IsRegular ?l = ?l" by simp
  have r: "list_all (rejected test_lib ?fs ''bad'') ?l"
    by (simp add: rejected_def entry_def readLines_def fixture_defs Let_def fmt_Errorf_def
        IsValidationError_def sentinel_defs)
  have 1: "DumpDir test_lib Builder (dirFS ''empty'' []) ''empty'' [] 10 =
     (Returns (Some ErrEmptyCorpus), [], 10)"
    using C4_EmptyCorpus[where fsys = "dirFS ''empty'' []" and dir = "''empty''"
        and listing = "[]" and lib = test_lib and wr = Builder and w = "[]" and h = 10] e
    by blast
  have 2: "\<exists>es h'.
        DumpDir test_lib Builder ?fs ''bad'' [] 10 =
          (Returns (Some (CorpusErrors (es @ [ErrEmptyCorpus]))), [], h') \<and>
        list_all2 (reported test_lib ?fs ''bad'' 0) es ?l \<and>
        errors_Is (Some (CorpusErrors (es @ [ErrEmptyCorpus]))) (Some ErrEmptyCorpus)"
    using C4_EmptyCorpus[where fsys = ?fs and dir = "''bad''"
        and listing = ?l and lib = test_lib and wr = Builder and w = "[]" and h = 10] d r
    unfolding f by blast
  from 1 2 show ?thesis by blast
qed

subsection \<open>The record of the writes\<close>

lemma logged_apply:
  "logged wr (w, log) b = (fst (wr w b), (snd (wr w b), log @ [(b, fst (wr w b))]))"
  by (simp add: logged_def split: prod.splits)

lemma all_written_append [simp]:
  "all_written (xs @ ys) = (all_written xs \<and> all_written ys)"
  by (simp add: all_written_def)

lemma all_written_simps [simp]:
  "all_written []" "all_written ((b, r) # xs) = (r = None \<and> all_written xs)"
  by (simp_all add: all_written_def)

lemma write_failed_last:
  "all_written l0 \<Longrightarrow>
   write_failed (l0 @ [(b, Some werr)]) (Some (WrapError a (''writing output: '' @ Error werr) werr))"
  by (simp add: write_failed_def)

lemma write_failed_prepend:
  "all_written l0 \<Longrightarrow> write_failed new r \<Longrightarrow> write_failed (l0 @ new) r"
  by (auto simp: write_failed_def butlast_append)

lemma write_failed_not_all_written: "write_failed new r \<Longrightarrow> \<not> all_written new"
  by (cases new rule: rev_cases) (auto simp: write_failed_def split: option.splits)

lemma fmt_Fprintf_value_eq: "fmt_Fprintf_value wr w v = wr w (value_line v)"
  by (simp add: fmt_Fprintf_value_def value_line_def)

lemma dumpLines_logged:
  "dumpLines (logged wr) lines (w, log) h = (r, (w', log'), h') \<Longrightarrow>
   \<exists>new. log' = log @ new \<and>
     (if r = None then all_written new \<and> map fst new = map value_line lines \<and> h' = h
      else write_failed new r \<and> h' = Suc h)"
proof (induction lines arbitrary: w log)
  case Nil
  then show ?case by simp
next
  case (Cons v vs)
  obtain r0 w1 where wr: "wr w (value_line v) = (r0, w1)" by (cases "wr w (value_line v)")
  show ?case
  proof (cases r0)
    case None
    with Cons.prems wr have
      "dumpLines (logged wr) vs (w1, log @ [(value_line v, None)]) h = (r, (w', log'), h')"
      by (simp add: fmt_Fprintf_value_eq logged_apply)
    from Cons.IH[OF this] obtain new where
      new: "log' = (log @ [(value_line v, None)]) @ new"
      and rest: "if r = None then all_written new \<and> map fst new = map value_line vs \<and> h' = h
        else write_failed new r \<and> h' = Suc h" by blast
    have "log' = log @ ((value_line v, None) # new)" using new by simp
    moreover have "if r = None
        then all_written ((value_line v, None) # new) \<and>
          map fst ((value_line v, None) # new) = map value_line (v # vs) \<and> h' = h
        else write_failed ((value_line v, None) # new) r \<and> h' = Suc h"
      using rest write_failed_prepend[of "[(value_line v, None)]" new r]
      by (auto split: if_splits)
    ultimately show ?thesis by blast
  next
    case (Some werr)
    with Cons.prems wr have res: "r = Some (WrapError h (''writing output: '' @ Error werr) werr)"
      "log' = log @ [(value_line v, Some werr)]" "h' = Suc h"
      by (simp_all add: fmt_Fprintf_value_eq logged_apply writeErr_Some)
    then show ?thesis
      using write_failed_last[of "[]" "value_line v" werr h] by auto
  qed
qed

lemma Error_sentinels [simp]:
  "Error ErrEmptyCorpus = ''no valid fuzz corpus files in directory''"
  "Error ErrMalformedEntry = ''must include version and at least one value''"
  "Error ErrUnsupportedVersion = ''unsupported encoding version''"
  "Error ErrInconsistentArgCount = ''inconsistent arg count in corpus entry''"
  by (simp_all add: sentinel_defs)

lemma dumpFiles_range_Inl:
  "readLines lib fsys (path_Join lib dir (Name f)) h = (Inl e1, h1) \<Longrightarrow>
   dumpFiles_range lib wr fsys dir n (f # fs) errs w h =
     (case Capture errs
        (Some (WrapError h1 (''reading '' @ strconv_Quote lib (Name f) @ '': '' @ Error e1) e1)) of
        (Some e, errs') \<Rightarrow> (Some e, w, Suc h1)
      | (None, errs') \<Rightarrow> dumpFiles_range lib wr fsys dir n fs errs' w (Suc h1))"
  by (simp add: readErr_Some)

lemma dumpFiles_range_mismatch:
  "readLines lib fsys (path_Join lib dir (Name f)) h = (Inr ls, h1) \<Longrightarrow> length ls \<noteq> n \<Longrightarrow>
   dumpFiles_range lib wr fsys dir n (f # fs) errs w h =
     dumpFiles_range lib wr fsys dir n fs
       (errs @ [WrapError (Suc h1)
          (''reading '' @ strconv_Quote lib (Name f) @ '': '' @ argCount_message n (length ls))
          (WrapError h1 (argCount_message n (length ls)) ErrInconsistentArgCount)])
       w (Suc (Suc h1))"
  by (simp add: readErr_Some fmt_Errorf_def argCount_message_def CorpusErrors_append_def)

lemma dumpFiles_range_emit:
  "readLines lib fsys (path_Join lib dir (Name f)) h = (Inr ls, h1) \<Longrightarrow> length ls = n \<Longrightarrow>
   dumpFiles_range lib wr fsys dir n (f # fs) errs w h =
     (case dumpEntry wr n ls w h1 of
        (Some e, w2, h2) \<Rightarrow> (Some e, w2, h2)
      | (None, w2, h2) \<Rightarrow> dumpFiles_range lib wr fsys dir n fs errs w2 h2)"
  by (cases "wr w (In multiArgSep @ [LF])"; cases "fst (wr w (In multiArgSep @ [LF]))")
    (simp_all add: dumpEntry_def fmt_Fprintln_def writeErr_Some)

declare dumpFiles_range.simps(2) [simp del]

lemma dumpEntry_logged:
  assumes "dumpEntry (logged wr) n ls (w, log) h = (r, (w', log'), h')"
  shows "\<exists>new. log' = log @ new \<and>
     (if r = None then all_written new \<and> map fst new = entry_chunks n ls \<and> h' = h
      else write_failed new r \<and> h' = Suc h)"
proof (cases "n > 1")
  case False
  with assms have "dumpLines (logged wr) ls (w, log) h = (r, (w', log'), h')"
    by (simp add: dumpEntry_def)
  from dumpLines_logged[OF this] obtain new where
    "log' = log @ new \<and>
     (if r = None then all_written new \<and> map fst new = map value_line ls \<and> h' = h
      else write_failed new r \<and> h' = Suc h)" by blast
  then have "log' = log @ new \<and>
     (if r = None then all_written new \<and> map fst new = entry_chunks n ls \<and> h' = h
      else write_failed new r \<and> h' = Suc h)"
    using False by (simp add: entry_chunks_def)
  then show ?thesis by blast
next
  case True
  let ?sep = "In multiArgSep @ [LF]"
  obtain r0 w1 where wr: "wr w ?sep = (r0, w1)" by (cases "wr w ?sep")
  show ?thesis
  proof (cases r0)
    case None
    with assms True wr have
      "dumpLines (logged wr) ls (w1, log @ [(?sep, None)]) h = (r, (w', log'), h')"
      by (simp add: dumpEntry_def fmt_Fprintln_def logged_apply)
    from dumpLines_logged[OF this] obtain new where
      new: "log' = (log @ [(?sep, None)]) @ new"
      and rest: "if r = None then all_written new \<and> map fst new = map value_line ls \<and> h' = h
        else write_failed new r \<and> h' = Suc h" by blast
    have "log' = log @ ((?sep, None) # new)" using new by simp
    moreover have "if r = None
        then all_written ((?sep, None) # new) \<and>
          map fst ((?sep, None) # new) = entry_chunks n ls \<and> h' = h
        else write_failed ((?sep, None) # new) r \<and> h' = Suc h"
      using rest True write_failed_prepend[of "[(?sep, None)]" new r]
      by (auto simp: entry_chunks_def split: if_splits)
    ultimately show ?thesis by blast
  next
    case (Some werr)
    with assms True wr have res: "r = Some (WrapError h (''writing output: '' @ Error werr) werr)"
      "log' = log @ [(?sep, Some werr)]" "h' = Suc h"
      by (simp_all add: dumpEntry_def fmt_Fprintln_def logged_apply writeErr_Some)
    then show ?thesis
      using write_failed_last[of "[]" ?sep werr h] by auto
  qed
qed

lemma dumpFiles_range_logged:
  "dumpFiles_range lib (logged wr) fsys dir n files errs (w, log) h = (r, (w', log'), h') \<Longrightarrow>
   \<exists>new. log' = log @ new \<and> (all_written new \<or> write_failed new r)"
proof (induction files arbitrary: errs w log h)
  case Nil
  then show ?case by simp
next
  case (Cons f fs)
  obtain x h1 where rl: "readLines lib fsys (path_Join lib dir (Name f)) h = (x, h1)"
    by (cases "readLines lib fsys (path_Join lib dir (Name f)) h")
  show ?case
  proof (cases x)
    case (Inl e1)
    let ?W = "WrapError h1 (''reading '' @ strconv_Quote lib (Name f) @ '': '' @ Error e1) e1"
    obtain c errs' where cap: "Capture errs (Some ?W) = (c, errs')"
      by (cases "Capture errs (Some ?W)")
    show ?thesis
    proof (cases c)
      case None
      with Cons.prems rl Inl cap have
        "dumpFiles_range lib (logged wr) fsys dir n fs errs' (w, log) (Suc h1) =
          (r, (w', log'), h')"
        by (simp add: dumpFiles_range_Inl)
      from Cons.IH[OF this] show ?thesis .
    next
      case (Some e)
      with Cons.prems rl Inl cap have "log' = log" by (simp add: dumpFiles_range_Inl)
      then show ?thesis by simp
    qed
  next
    case (Inr ls)
    show ?thesis
    proof (cases "length ls = n")
      case False
      with Cons.prems rl Inr obtain errs' h2 where
        "dumpFiles_range lib (logged wr) fsys dir n fs errs' (w, log) h2 = (r, (w', log'), h')"
        by (simp add: dumpFiles_range_mismatch)
      from Cons.IH[OF this] show ?thesis .
    next
      case True
      obtain r1 w2 log2 h2 where de: "dumpEntry (logged wr) n ls (w, log) h1 = (r1, (w2, log2), h2)"
        by (cases "dumpEntry (logged wr) n ls (w, log) h1") auto
      from dumpEntry_logged[OF de] obtain new1 where
        new1: "log2 = log @ new1"
        and rest1: "if r1 = None then all_written new1 \<and> map fst new1 = entry_chunks n ls \<and> h2 = h1
          else write_failed new1 r1 \<and> h2 = Suc h1" by blast
      show ?thesis
      proof (cases r1)
        case None
        with Cons.prems rl Inr True de have
          "dumpFiles_range lib (logged wr) fsys dir n fs errs (w2, log2) h2 = (r, (w', log'), h')"
          by (simp add: dumpFiles_range_emit)
        from Cons.IH[OF this] obtain new2 where
          new2: "log' = log2 @ new2" "all_written new2 \<or> write_failed new2 r" by blast
        have "log' = log @ (new1 @ new2)" using new1 new2 by simp
        moreover have "all_written (new1 @ new2) \<or> write_failed (new1 @ new2) r"
          using rest1 None new2 write_failed_prepend[of new1 new2 r] by auto
        ultimately show ?thesis by blast
      next
        case (Some e)
        with Cons.prems rl Inr True de have "r = r1" "log' = log2"
          by (simp_all add: dumpFiles_range_emit)
        then show ?thesis using new1 rest1 Some by auto
      qed
    qed
  qed
qed

lemma Capture_signal_fatal:
  "Capture e cand = (Some s, e') \<Longrightarrow> fatal_signal s"
  "Capture_range e xs = (Some s, e') \<Longrightarrow> fatal_signal s"
  by (induction e cand and e xs arbitrary: e' and e' rule: Capture_Capture_range.induct)
    (auto simp: Capture_plain fatal_signal_def opaque_def ErrEmptyCorpus_fatal
      split: if_splits prod.splits option.splits)

lemma Capture_fatal_signal: "fatal_signal s \<Longrightarrow> fst (Capture e0 (Some s)) \<noteq> None"
proof (cases s)
  case (CorpusErrors es)
  assume f: "fatal_signal s"
  with CorpusErrors obtain xs c where es: "es = xs @ [c]" and c: "\<not> is_CorpusErrors c"
    "\<not> IsValidationError (Some c)" "errors_Is (Some c) (Some ErrEmptyCorpus)"
    by (cases es rule: rev_cases) (auto simp: fatal_signal_def)
  show ?thesis
  proof (cases "Capture_range e0 xs")
    case (Pair r e1)
    then show ?thesis using CorpusErrors es c
      by (cases r) (simp_all add: Capture_range_append Capture_plain)
  qed
qed (simp_all add: fatal_signal_def Capture_plain opaque_def)

lemma firstValid_loop_files:
  "firstValidFileLines_loop lib fsys dir fs errs h = ((lines, files, err), h1) \<Longrightarrow>
   files \<noteq> [] \<or> (\<exists>s. err = Some s \<and> fatal_signal s)"
proof (induction fs arbitrary: errs h)
  case Nil
  then show ?case
    by (auto simp: Capture_plain ErrEmptyCorpus_fatal fatal_signal_def)
next
  case (Cons f fs)
  obtain x h0 where rl: "readLines lib fsys (path_Join lib dir (Name f)) h = (x, h0)"
    by (cases "readLines lib fsys (path_Join lib dir (Name f)) h")
  show ?case
  proof (cases x)
    case (Inr ls)
    with Cons.prems rl show ?thesis by auto
  next
    case (Inl e1)
    let ?W = "WrapError h0 (''reading '' @ strconv_Quote lib (Name f) @ '': '' @ Error e1) e1"
    obtain c errs' where cap: "Capture errs (Some ?W) = (c, errs')"
      by (cases "Capture errs (Some ?W)")
    show ?thesis
    proof (cases c)
      case None
      with Cons.prems rl Inl cap have
        "firstValidFileLines_loop lib fsys dir fs errs' (Suc h0) = ((lines, files, err), h1)"
        by (simp add: readErr_Some)
      from Cons.IH[OF this] show ?thesis .
    next
      case (Some e)
      with Cons.prems rl Inl cap have "err = Some e" by (simp add: readErr_Some)
      moreover have "fatal_signal e" using cap Some Capture_signal_fatal(1) by blast
      ultimately show ?thesis by blast
    qed
  qed
qed

lemmas DD = DumpDir_def Let_def seps_for_def fmt_Fprintln_def writeErr_Some

lemma DumpDir_cases:
  assumes "DumpDir lib wr fsys dir w h = (res, w', h')"
  obtains
    (listing) err where "corpusFiles fsys dir = Inl err" "res = Returns (Some err)"
      "w' = w" "h' = h"
  | (phase1) files0 lines files err h1 e errs1 where
      "corpusFiles fsys dir = Inr files0"
      "firstValidFileLines lib fsys dir files0 h = ((lines, files, err), h1)"
      "Capture [] err = (Some e, errs1)" "res = Returns (Some e)" "w' = w" "h' = h1"
  | (pre_failed) files0 lines files err h1 errs1 werr where
      "corpusFiles fsys dir = Inr files0"
      "firstValidFileLines lib fsys dir files0 h = ((lines, files, err), h1)"
      "Capture [] err = (None, errs1)"
      "wr w (Pre (seps_for (length lines)) @ [LF]) = (Some werr, w')"
      "res = Returns (Some (WrapError h1 (''writing output: '' @ Error werr) werr))"
      "h' = Suc h1"
  | (first_failed) files0 lines files err h1 errs1 w1 e where
      "corpusFiles fsys dir = Inr files0"
      "firstValidFileLines lib fsys dir files0 h = ((lines, files, err), h1)"
      "Capture [] err = (None, errs1)"
      "wr w (Pre (seps_for (length lines)) @ [LF]) = (None, w1)"
      "dumpLines wr lines w1 h1 = (Some e, w', h')" "res = Returns (Some e)"
  | (phase2) files0 lines f rest err h1 errs1 w1 w2 h2 err2 e errs2 where
      "corpusFiles fsys dir = Inr files0"
      "firstValidFileLines lib fsys dir files0 h = ((lines, f # rest, err), h1)"
      "Capture [] err = (None, errs1)"
      "wr w (Pre (seps_for (length lines)) @ [LF]) = (None, w1)"
      "dumpLines wr lines w1 h1 = (None, w2, h2)"
      "dumpFiles lib wr fsys dir rest (length lines) w2 h2 = (err2, w', h')"
      "Capture errs1 err2 = (Some e, errs2)" "res = Returns (Some e)"
  | (post_failed) files0 lines f rest err h1 errs1 w1 w2 h2 err2 w3 h3 errs2 werr where
      "corpusFiles fsys dir = Inr files0"
      "firstValidFileLines lib fsys dir files0 h = ((lines, f # rest, err), h1)"
      "Capture [] err = (None, errs1)"
      "wr w (Pre (seps_for (length lines)) @ [LF]) = (None, w1)"
      "dumpLines wr lines w1 h1 = (None, w2, h2)"
      "dumpFiles lib wr fsys dir rest (length lines) w2 h2 = (err2, w3, h3)"
      "Capture errs1 err2 = (None, errs2)"
      "wr w3 (Post (seps_for (length lines)) @ [LF]) = (Some werr, w')"
      "res = Returns (Some (WrapError h3 (''writing output: '' @ Error werr) werr))"
      "h' = Suc h3"
  | (finished) files0 lines f rest err h1 errs1 w1 w2 h2 err2 w3 errs2 where
      "corpusFiles fsys dir = Inr files0"
      "firstValidFileLines lib fsys dir files0 h = ((lines, f # rest, err), h1)"
      "Capture [] err = (None, errs1)"
      "wr w (Pre (seps_for (length lines)) @ [LF]) = (None, w1)"
      "dumpLines wr lines w1 h1 = (None, w2, h2)"
      "dumpFiles lib wr fsys dir rest (length lines) w2 h2 = (err2, w3, h')"
      "Capture errs1 err2 = (None, errs2)"
      "wr w3 (Post (seps_for (length lines)) @ [LF]) = (None, w')"
      "res = Returns (CorpusErrors_AsError errs2)"
proof (cases "corpusFiles fsys dir")
  case (Inl err)
  with assms listing show ?thesis by (simp add: DD)
next
  case (Inr files0)
  obtain lines files err h1 where
    fv: "firstValidFileLines lib fsys dir files0 h = ((lines, files, err), h1)"
    by (cases "firstValidFileLines lib fsys dir files0 h") auto
  obtain c errs1 where cap: "Capture [] err = (c, errs1)" by (cases "Capture [] err")
  show ?thesis
  proof (cases c)
    case (Some e)
    with assms Inr fv cap phase1 show ?thesis by (simp add: DD)
  next
    case None
    note c_None = this
    let ?seps = "seps_for (length lines)"
    obtain r0 w1 where pre: "wr w (Pre ?seps @ [LF]) = (r0, w1)"
      by (cases "wr w (Pre ?seps @ [LF])")
    show ?thesis
    proof (cases r0)
      case (Some werr)
      with assms Inr fv cap c_None pre pre_failed show ?thesis by (simp add: DD)
    next
      case None
      note r0_None = this
      obtain r1 w2 h2 where dl: "dumpLines wr lines w1 h1 = (r1, w2, h2)"
        by (cases "dumpLines wr lines w1 h1")
      show ?thesis
      proof (cases r1)
        case (Some e)
        with assms Inr fv cap c_None pre r0_None dl first_failed show ?thesis by (simp add: DD)
      next
        case None
        note r1_None = this
        have "files \<noteq> []"
        proof
          assume "files = []"
          with firstValid_loop_files[OF fv[unfolded firstValidFileLines_def]]
          obtain s where "err = Some s" "fatal_signal s" by blast
          with Capture_fatal_signal[of s "[]"] cap c_None show False by simp
        qed
        then obtain f rest where files: "files = f # rest" by (cases files) auto
        obtain err2 w3 h3 where df:
          "dumpFiles lib wr fsys dir rest (length lines) w2 h2 = (err2, w3, h3)"
          by (cases "dumpFiles lib wr fsys dir rest (length lines) w2 h2")
        obtain c2 errs2 where cap2: "Capture errs1 err2 = (c2, errs2)"
          by (cases "Capture errs1 err2")
        show ?thesis
        proof (cases c2)
          case (Some e)
          with assms Inr fv cap c_None pre r0_None dl r1_None files df cap2 phase2
          show ?thesis by (simp add: DD)
        next
          case None
          note c2_None = this
          obtain r4 w4 where post: "wr w3 (Post ?seps @ [LF]) = (r4, w4)"
            by (cases "wr w3 (Post ?seps @ [LF])")
          show ?thesis
          proof (cases r4)
            case (Some werr)
            with assms Inr fv cap c_None pre r0_None dl r1_None files df cap2 c2_None post
              post_failed
            show ?thesis by (simp add: DD)
          next
            case None
            with assms Inr fv cap c_None pre r0_None dl r1_None files df cap2 c2_None post
              finished
            show ?thesis by (simp add: DD)
          qed
        qed
      qed
    qed
  qed
qed

lemma all_written_no_failure: "all_written l \<Longrightarrow> (b, Some werr) \<notin> set l"
  by (auto simp: all_written_def list_all_iff)

lemma write_failed_mem:
  assumes "write_failed new r" and "(b, Some werr) \<in> set new"
  shows "(\<exists>l0. new = l0 @ [(b, Some werr)]) \<and>
    (\<exists>a. r = Some (WrapError a (''writing output: '' @ Error werr) werr))"
proof -
  from assms(1) obtain l0 x where new: "new = l0 @ [x]" and l0: "all_written l0"
    by (cases new rule: rev_cases) (auto simp: write_failed_def)
  from assms(2) new l0 have x: "x = (b, Some werr)"
    using all_written_no_failure[of l0 b werr] by auto
  from assms(1) new x obtain a where
    "r = Some (WrapError a (''writing output: '' @ Error werr) werr)"
    by (auto simp: write_failed_def split: option.splits error.splits)
  with new x show ?thesis by blast
qed

lemma logged_result:
  "logged wr (w, log) b = (r, (w1, log1)) \<Longrightarrow> log1 = log @ [(b, r)]"
  by (auto simp: logged_apply)

lemma phase2_opaque_failure:
  assumes df: "dumpFiles lib (logged wr) fsys dir rest n (w2, log2) h2 = (err2, (w3, log3), h3)"
    and ok2: "all_written log2"
    and fail: "(b, Some werr) \<in> set log3" and op: "opaque werr"
  shows "(\<exists>l0. log3 = l0 @ [(b, Some werr)]) \<and>
    (\<exists>a. err2 = Some (WrapError a (''writing output: '' @ Error werr) werr) \<and>
       Capture errs1 err2 =
         (Some (WrapError a (''writing output: '' @ Error werr) werr), errs1))"
proof -
  from dumpFiles_range_logged[OF df[unfolded dumpFiles_def]] obtain new where
    new: "log3 = log2 @ new" and sh: "all_written new \<or> write_failed new err2" by blast
  from fail new ok2 have mem: "(b, Some werr) \<in> set new"
    using all_written_no_failure[of log2 b werr] by auto
  with sh have wf: "write_failed new err2"
    using all_written_no_failure[of new b werr] by blast
  from write_failed_mem[OF wf mem] obtain l0 a where
    l0: "new = l0 @ [(b, Some werr)]"
    and e2: "err2 = Some (WrapError a (''writing output: '' @ Error werr) werr)" by blast
  have "log3 = (log2 @ l0) @ [(b, Some werr)]" using new l0 by simp
  moreover have "Capture errs1 err2 =
      (Some (WrapError a (''writing output: '' @ Error werr) werr), errs1)"
    using e2 op by (simp add: Capture_wrapped_opaque)
  ultimately show ?thesis using e2 by blast
qed

subsection \<open>A failed write\<close>

text \<open>
  In a scan whose writer records its calls: when a \<open>Write\<close> call fails with an error that
  matches none of the four exported errors, that call is the last one of the scan, and
  \<open>DumpDir\<close> returns the error wrapped by \<open>writeErr\<close> with the text \<open>writing output\<close>,
  not an aggregate: the errors captured before are not part of the result.
\<close>

lemma DumpDir_opaque_write_failure:
  assumes run: "DumpDir lib (logged wr) fsys dir (w, []) h = (res, (w', log), h')"
    and fail: "(b, Some werr) \<in> set log"
    and op: "opaque werr"
  shows "(\<exists>l0. log = l0 @ [(b, Some werr)]) \<and>
    (\<exists>a. res = Returns (Some (WrapError a (''writing output: '' @ Error werr) werr)))"
  using run
proof (cases rule: DumpDir_cases)
  case (listing err)
  with fail show ?thesis by simp
next
  case (phase1 files0 lines files err h1 e errs1)
  with fail show ?thesis by simp
next
  case (pre_failed files0 lines files err h1 errs1 werr0)
  from logged_result[OF pre_failed(4)] have "log = [(Pre (seps_for (length lines)) @ [LF], Some werr0)]"
    by simp
  with fail pre_failed(5) show ?thesis by auto
next
  case (first_failed files0 lines files err h1 errs1 w1 e)
  obtain w1' log1 where w1: "w1 = (w1', log1)" by (cases w1)
  from logged_result[OF first_failed(4)[unfolded w1]]
  have log1: "log1 = [(Pre (seps_for (length lines)) @ [LF], None)]" by simp
  from dumpLines_logged[OF first_failed(5)[unfolded w1]] obtain new where
    new: "log = log1 @ new" and wf: "write_failed new (Some e)" by auto
  from fail new log1 have "(b, Some werr) \<in> set new" by auto
  from write_failed_mem[OF wf this] new first_failed(6) show ?thesis by auto
next
  case (phase2 files0 lines f rest err h1 errs1 w1 w2 h2 err2 e errs2)
  obtain w1' log1 where w1: "w1 = (w1', log1)" by (cases w1)
  obtain w2' log2 where w2: "w2 = (w2', log2)" by (cases w2)
  from logged_result[OF phase2(4)[unfolded w1]]
  have log1: "log1 = [(Pre (seps_for (length lines)) @ [LF], None)]" by simp
  from dumpLines_logged[OF phase2(5)[unfolded w1 w2]] log1
  have ok2: "all_written log2" by auto
  from phase2_opaque_failure[OF phase2(6)[unfolded w2] ok2 fail op, of errs1]
    phase2(7,8)
  show ?thesis by auto
next
  case (post_failed files0 lines f rest err h1 errs1 w1 w2 h2 err2 w3 h3 errs2 werr0)
  obtain w1' log1 where w1: "w1 = (w1', log1)" by (cases w1)
  obtain w2' log2 where w2: "w2 = (w2', log2)" by (cases w2)
  obtain w3' log3 where w3: "w3 = (w3', log3)" by (cases w3)
  from logged_result[OF post_failed(4)[unfolded w1]]
  have log1: "log1 = [(Pre (seps_for (length lines)) @ [LF], None)]" by simp
  from dumpLines_logged[OF post_failed(5)[unfolded w1 w2]] log1
  have ok2: "all_written log2" by auto
  from logged_result[OF post_failed(8)[unfolded w3]]
  have log: "log = log3 @ [(Post (seps_for (length lines)) @ [LF], Some werr0)]" by simp
  have "(b, Some werr) \<notin> set log3"
  proof
    assume "(b, Some werr) \<in> set log3"
    from phase2_opaque_failure[OF post_failed(6)[unfolded w2 w3] ok2 this op, of errs1]
      post_failed(7)
    show False by auto
  qed
  with fail log post_failed(9) show ?thesis by auto
next
  case (finished files0 lines f rest err h1 errs1 w1 w2 h2 err2 w3 errs2)
  obtain w1' log1 where w1: "w1 = (w1', log1)" by (cases w1)
  obtain w2' log2 where w2: "w2 = (w2', log2)" by (cases w2)
  obtain w3' log3 where w3: "w3 = (w3', log3)" by (cases w3)
  from logged_result[OF finished(4)[unfolded w1]]
  have log1: "log1 = [(Pre (seps_for (length lines)) @ [LF], None)]" by simp
  from dumpLines_logged[OF finished(5)[unfolded w1 w2]] log1
  have ok2: "all_written log2" by auto
  from logged_result[OF finished(8)[unfolded w3]]
  have log: "log = log3 @ [(Post (seps_for (length lines)) @ [LF], None)]" by simp
  have "(b, Some werr) \<notin> set log3"
  proof
    assume "(b, Some werr) \<in> set log3"
    from phase2_opaque_failure[OF finished(6)[unfolded w2 w3] ok2 this op, of errs1]
      finished(7)
    show False by auto
  qed
  with fail log show ?thesis by auto
qed

text \<open>
  C8. A failure of the write primitive is to abort the scan at once, with the failure
  wrapped by \<open>writeErr\<close> as the result and the errors captured before left out. \<open>DumpDir\<close>
  does so for the opening delimiter, the lines of the first entry and the closing
  delimiter, whose failures it returns directly, but not for the separator and the lines of
  a later entry: \<open>dumpFiles\<close> returns their failure through the value that also carries its
  aggregate, and \<open>DumpDir\<close> passes that value to \<open>Capture\<close>, which absorbs an error that
  matches a validation error under \<open>errors.Is\<close>.

  The run below is the directory \<open>badMulti\<close> of the tests (an entry without values, two
  two-argument entries, an entry without values) with a writer that fails on the entry
  separator with \<open>ErrMalformedEntry\<close>. The failed write is not the last one: the closing
  delimiter is written after it, and the result is the aggregate of the report of the first
  file and the wrapped write failure. With the same error, a failure of the opening or of
  the closing delimiter gives the wrapped write failure alone, and so does a failure of the
  separator with an error of the writer's own, as \<open>TestDumpDir_OutputErrors\<close> expects.
\<close>

theorem C8_write_failure_absorbed:
  "DumpDir test_lib (logged (failOn (''}, {'' @ [LF]) ErrMalformedEntry))
     badMulti_corpus ''badMulti'' ([], []) 10 =
   (Returns (Some (CorpusErrors
      [WrapError 10 (''reading '' @ [DQ] @ ''1'' @ [DQ] @ '': '' @ Error ErrMalformedEntry)
         ErrMalformedEntry,
       WrapError 11 (''writing output: '' @ Error ErrMalformedEntry) ErrMalformedEntry])),
    (''{{'' @ [LF] @ value_line (''string('' @ [DQ] @ ''foo'' @ [DQ] @ '')'') @
     value_line ''uint(8)'' @ ''}}'' @ [LF],
     [(''{{'' @ [LF], None),
      (value_line (''string('' @ [DQ] @ ''foo'' @ [DQ] @ '')''), None),
      (value_line ''uint(8)'', None),
      (''}, {'' @ [LF], Some ErrMalformedEntry),
      (''}}'' @ [LF], None)]),
    12)
   \<and> DumpDir test_lib (logged (failOn (''{{'' @ [LF]) ErrMalformedEntry))
     badMulti_corpus ''badMulti'' ([], []) 10 =
   (Returns (Some
      (WrapError 11 (''writing output: '' @ Error ErrMalformedEntry) ErrMalformedEntry)),
    ([], [(''{{'' @ [LF], Some ErrMalformedEntry)]),
    12)
   \<and> DumpDir test_lib (logged (failOn (''}}'' @ [LF]) ErrMalformedEntry))
     badMulti_corpus ''badMulti'' ([], []) 10 =
   (Returns (Some
      (WrapError 12 (''writing output: '' @ Error ErrMalformedEntry) ErrMalformedEntry)),
    (''{{'' @ [LF] @ value_line (''string('' @ [DQ] @ ''foo'' @ [DQ] @ '')'') @
     value_line ''uint(8)'' @ ''}, {'' @ [LF] @
     value_line (''string('' @ [DQ] @ ''bar'' @ [DQ] @ '')'') @ value_line ''uint(13)'',
     [(''{{'' @ [LF], None),
      (value_line (''string('' @ [DQ] @ ''foo'' @ [DQ] @ '')''), None),
      (value_line ''uint(8)'', None),
      (''}, {'' @ [LF], None),
      (value_line (''string('' @ [DQ] @ ''bar'' @ [DQ] @ '')''), None),
      (value_line ''uint(13)'', None),
      (''}}'' @ [LF], Some ErrMalformedEntry)]),
    13)
   \<and> DumpDir test_lib (logged (failOn (''}, {'' @ [LF]) (ErrorString 9 ''snap'')))
     badMulti_corpus ''badMulti'' ([], []) 10 =
   (Returns (Some (WrapError 11 ''writing output: snap'' (ErrorString 9 ''snap''))),
    (''{{'' @ [LF] @ value_line (''string('' @ [DQ] @ ''foo'' @ [DQ] @ '')'') @
     value_line ''uint(8)'',
     [(''{{'' @ [LF], None),
      (value_line (''string('' @ [DQ] @ ''foo'' @ [DQ] @ '')''), None),
      (value_line ''uint(8)'', None),
      (''}, {'' @ [LF], Some (ErrorString 9 ''snap''))]),
    12)"
proof -
  have run_sep: "DumpDir test_lib (logged (failOn (''}, {'' @ [LF]) ErrMalformedEntry))
     badMulti_corpus ''badMulti'' ([], []) 10 =
   (Returns (Some (CorpusErrors
      [WrapError 10 (''reading '' @ [DQ] @ ''1'' @ [DQ] @ '': '' @ Error ErrMalformedEntry)
         ErrMalformedEntry,
       WrapError 11 (''writing output: '' @ Error ErrMalformedEntry) ErrMalformedEntry])),
    (''{{'' @ [LF] @ value_line (''string('' @ [DQ] @ ''foo'' @ [DQ] @ '')'') @
     value_line ''uint(8)'' @ ''}}'' @ [LF],
     [(''{{'' @ [LF], None),
      (value_line (''string('' @ [DQ] @ ''foo'' @ [DQ] @ '')''), None),
      (value_line ''uint(8)'', None),
      (''}, {'' @ [LF], Some ErrMalformedEntry),
      (''}}'' @ [LF], None)]),
    12)"
    by code_simp
  have run_pre: "DumpDir test_lib (logged (failOn (''{{'' @ [LF]) ErrMalformedEntry))
     badMulti_corpus ''badMulti'' ([], []) 10 =
   (Returns (Some
      (WrapError 11 (''writing output: '' @ Error ErrMalformedEntry) ErrMalformedEntry)),
    ([], [(''{{'' @ [LF], Some ErrMalformedEntry)]),
    12)"
    by code_simp
  have run_post: "DumpDir test_lib (logged (failOn (''}}'' @ [LF]) ErrMalformedEntry))
     badMulti_corpus ''badMulti'' ([], []) 10 =
   (Returns (Some
      (WrapError 12 (''writing output: '' @ Error ErrMalformedEntry) ErrMalformedEntry)),
    (''{{'' @ [LF] @ value_line (''string('' @ [DQ] @ ''foo'' @ [DQ] @ '')'') @
     value_line ''uint(8)'' @ ''}, {'' @ [LF] @
     value_line (''string('' @ [DQ] @ ''bar'' @ [DQ] @ '')'') @ value_line ''uint(13)'',
     [(''{{'' @ [LF], None),
      (value_line (''string('' @ [DQ] @ ''foo'' @ [DQ] @ '')''), None),
      (value_line ''uint(8)'', None),
      (''}, {'' @ [LF], None),
      (value_line (''string('' @ [DQ] @ ''bar'' @ [DQ] @ '')''), None),
      (value_line ''uint(13)'', None),
      (''}}'' @ [LF], Some ErrMalformedEntry)]),
    13)"
    by code_simp
  have run_snap: "DumpDir test_lib (logged (failOn (''}, {'' @ [LF]) (ErrorString 9 ''snap'')))
     badMulti_corpus ''badMulti'' ([], []) 10 =
   (Returns (Some (WrapError 11 ''writing output: snap'' (ErrorString 9 ''snap''))),
    (''{{'' @ [LF] @ value_line (''string('' @ [DQ] @ ''foo'' @ [DQ] @ '')'') @
     value_line ''uint(8)'',
     [(''{{'' @ [LF], None),
      (value_line (''string('' @ [DQ] @ ''foo'' @ [DQ] @ '')''), None),
      (value_line ''uint(8)'', None),
      (''}, {'' @ [LF], Some (ErrorString 9 ''snap''))]),
    12)"
    by code_simp
  show ?thesis
    by (intro conjI) (rule run_sep, rule run_pre, rule run_post, rule run_snap)
qed

subsection \<open>A scan that finds a valid entry\<close>

lemma reported_mismatch:
  "entry lib fsys dir f = Inr ls \<Longrightarrow>
   reported lib fsys dir n
     (WrapError a
        (''reading '' @ strconv_Quote lib (Name f) @ '': '' @ argCount_message n (length ls))
        (WrapError a' (argCount_message n (length ls)) ErrInconsistentArgCount)) f"
  by simp

lemma rest_chunks_Cons:
  "rest_chunks lib fsys dir n (f # fs) =
     (case entry lib fsys dir f of
        Inl e \<Rightarrow> []
      | Inr ls \<Rightarrow> if length ls = n then entry_chunks n ls else []) @
     rest_chunks lib fsys dir n fs"
  by (simp add: rest_chunks_def)

lemma rest_chunks_Nil [simp]: "rest_chunks lib fsys dir n [] = []"
  by (simp add: rest_chunks_def)

lemma dumpFiles_range_prefix:
  assumes "list_all (accepted_or_rejected lib fsys dir) pre"
    and "dumpFiles_range lib (logged wr) fsys dir n (pre @ rest) errs (w, log) h =
      (r, (w', log'), h')"
    and "all_written log'"
  shows "\<exists>es w1 new h1.
     list_all2 (reported lib fsys dir n) es (filter (\<lambda>f. \<not> emitted lib fsys dir n f) pre) \<and>
     map fst new = rest_chunks lib fsys dir n pre \<and>
     dumpFiles_range lib (logged wr) fsys dir n rest (errs @ es) (w1, log @ new) h1 =
       (r, (w', log'), h')"
  using assms
proof (induction pre arbitrary: errs w log h)
  case Nil
  have "list_all2 (reported lib fsys dir n) [] (filter (\<lambda>f. \<not> emitted lib fsys dir n f) []) \<and>
     map fst ([] :: (string \<times> error option) list) = rest_chunks lib fsys dir n [] \<and>
     dumpFiles_range lib (logged wr) fsys dir n rest (errs @ []) (w, log @ []) h =
       (r, (w', log'), h')"
    using Nil by simp
  then show ?case by blast
next
  case (Cons f pre)
  from Cons.prems(1) have aor: "accepted_or_rejected lib fsys dir f"
    and pre: "list_all (accepted_or_rejected lib fsys dir) pre" by simp_all
  note run = Cons.prems(2)[simplified]
  note ok = Cons.prems(3)
  show ?case
  proof (cases "entry lib fsys dir f")
    case (Inl e0)
    with aor have v0: "IsValidationError (Some e0)" by (simp add: accepted_or_rejected_def)
    from readLines_entry_Inl[OF Inl, of h] obtain e1 h1 where
      rl: "readLines lib fsys (path_Join lib dir (Name f)) h = (Inl e1, h1)"
      and sba: "same_but_address e1 e0" by blast
    let ?W = "WrapError h1 (''reading '' @ strconv_Quote lib (Name f) @ '': '' @ Error e1) e1"
    have v1: "IsValidationError (Some e1)"
      using v0 sba by (simp add: same_but_address_IsValidationError)
    have "dumpFiles_range lib (logged wr) fsys dir n (pre @ rest) (errs @ [?W]) (w, log) (Suc h1) =
        (r, (w', log'), h')"
      using run rl v1 by (simp add: dumpFiles_range_Inl Capture_wrapped_validation)
    from Cons.IH[OF pre this ok] obtain es w1 new h2 where
      es: "list_all2 (reported lib fsys dir n) es
        (filter (\<lambda>f. \<not> emitted lib fsys dir n f) pre)"
      and ch: "map fst new = rest_chunks lib fsys dir n pre"
      and rn: "dumpFiles_range lib (logged wr) fsys dir n rest ((errs @ [?W]) @ es)
        (w1, log @ new) h2 = (r, (w', log'), h')" by blast
    have "list_all2 (reported lib fsys dir n) (?W # es)
        (filter (\<lambda>f. \<not> emitted lib fsys dir n f) (f # pre))"
      using es Inl reported_rejected[OF Inl sba, of n h1] by (simp add: emitted_def)
    moreover have "map fst new = rest_chunks lib fsys dir n (f # pre)"
      using ch Inl by (simp add: rest_chunks_Cons)
    moreover have "dumpFiles_range lib (logged wr) fsys dir n rest (errs @ (?W # es))
        (w1, log @ new) h2 = (r, (w', log'), h')"
      using rn by simp
    ultimately show ?thesis by blast
  next
    case (Inr ls)
    note rl = readLines_entry_Inr[OF Inr, of h]
    show ?thesis
    proof (cases "length ls = n")
      case False
      let ?R = "WrapError (Suc h)
          (''reading '' @ strconv_Quote lib (Name f) @ '': '' @ argCount_message n (length ls))
          (WrapError h (argCount_message n (length ls)) ErrInconsistentArgCount)"
      have "dumpFiles_range lib (logged wr) fsys dir n (pre @ rest) (errs @ [?R]) (w, log)
          (Suc (Suc h)) = (r, (w', log'), h')"
        using run rl False by (simp add: dumpFiles_range_mismatch)
      from Cons.IH[OF pre this ok] obtain es w1 new h2 where
        es: "list_all2 (reported lib fsys dir n) es
          (filter (\<lambda>f. \<not> emitted lib fsys dir n f) pre)"
        and ch: "map fst new = rest_chunks lib fsys dir n pre"
        and rn: "dumpFiles_range lib (logged wr) fsys dir n rest ((errs @ [?R]) @ es)
          (w1, log @ new) h2 = (r, (w', log'), h')" by blast
      have "list_all2 (reported lib fsys dir n) (?R # es)
          (filter (\<lambda>f. \<not> emitted lib fsys dir n f) (f # pre))"
        using es Inr False reported_mismatch[OF Inr, of n "Suc h" h] by (simp add: emitted_def)
      moreover have "map fst new = rest_chunks lib fsys dir n (f # pre)"
        using ch Inr False by (simp add: rest_chunks_Cons)
      moreover have "dumpFiles_range lib (logged wr) fsys dir n rest (errs @ (?R # es))
          (w1, log @ new) h2 = (r, (w', log'), h')"
        using rn by simp
      ultimately show ?thesis by blast
    next
      case True
      obtain r1 w2 log2 h2 where
        de: "dumpEntry (logged wr) n ls (w, log) h = (r1, (w2, log2), h2)"
        by (cases "dumpEntry (logged wr) n ls (w, log) h") auto
      from dumpEntry_logged[OF de] obtain new1 where
        new1: "log2 = log @ new1"
        and rest1: "if r1 = None then all_written new1 \<and> map fst new1 = entry_chunks n ls \<and> h2 = h
          else write_failed new1 r1 \<and> h2 = Suc h" by blast
      have r1: "r1 = None"
      proof (rule ccontr)
        assume "r1 \<noteq> None"
        then obtain e where e: "r1 = Some e" by auto
        with run rl True de have "log' = log2" by (simp add: dumpFiles_range_emit)
        moreover from e rest1 have "\<not> all_written new1"
          using write_failed_not_all_written by auto
        ultimately show False using ok new1 by simp
      qed
      with rest1 have ch1: "map fst new1 = entry_chunks n ls" and h2: "h2 = h" by simp_all
      have "dumpFiles_range lib (logged wr) fsys dir n (pre @ rest) errs (w2, log @ new1) h =
          (r, (w', log'), h')"
        using run rl True de r1 new1 h2 by (simp add: dumpFiles_range_emit)
      from Cons.IH[OF pre this ok] obtain es w1 new h3 where
        es: "list_all2 (reported lib fsys dir n) es
          (filter (\<lambda>f. \<not> emitted lib fsys dir n f) pre)"
        and ch: "map fst new = rest_chunks lib fsys dir n pre"
        and rn: "dumpFiles_range lib (logged wr) fsys dir n rest (errs @ es)
          (w1, (log @ new1) @ new) h3 = (r, (w', log'), h')" by blast
      have "list_all2 (reported lib fsys dir n) es
          (filter (\<lambda>f. \<not> emitted lib fsys dir n f) (f # pre))"
        using es Inr True by (simp add: emitted_def)
      moreover have "map fst (new1 @ new) = rest_chunks lib fsys dir n (f # pre)"
        using ch ch1 Inr True by (simp add: rest_chunks_Cons)
      moreover have "dumpFiles_range lib (logged wr) fsys dir n rest (errs @ es)
          (w1, log @ (new1 @ new)) h3 = (r, (w', log'), h')"
        using rn by simp
      ultimately show ?thesis by blast
    qed
  qed
qed

lemma Capture_absorbed_aggregate:
  "list_all (\<lambda>x. \<not> is_CorpusErrors x \<and> IsValidationError (Some x)) es \<Longrightarrow>
   Capture errs (CorpusErrors_AsError es) = (None, errs @ es)"
proof (cases es)
  case Nil
  then show ?thesis by (simp add: CorpusErrors_AsError_def)
next
  case (Cons a list)
  assume "list_all (\<lambda>x. \<not> is_CorpusErrors x \<and> IsValidationError (Some x)) es"
  from Capture_range_absorbed[OF this, of errs] Cons show ?thesis
    by (simp add: CorpusErrors_AsError_def del: Capture_range.simps)
qed

lemma firstValid_valid_first:
  assumes "list_all (rejected lib fsys dir) pre" and "entry lib fsys dir f0 = Inr ls0"
  shows "\<exists>es h1. list_all2 (reported lib fsys dir n) es pre \<and>
     firstValidFileLines lib fsys dir (pre @ f0 # later) h =
       ((ls0, f0 # later, CorpusErrors_AsError es), h1) \<and>
     Capture [] (CorpusErrors_AsError es) = (None, es)"
proof -
  from firstValid_rejected_prefix[OF assms(1), of n "f0 # later" "[]" h] obtain es h1 where
    es: "list_all2 (reported lib fsys dir n) es pre"
    and loop: "firstValidFileLines_loop lib fsys dir (pre @ f0 # later) [] h =
      firstValidFileLines_loop lib fsys dir (f0 # later) es h1" by auto
  have fv: "firstValidFileLines lib fsys dir (pre @ f0 # later) h =
       ((ls0, f0 # later, CorpusErrors_AsError es), h1)"
    using loop readLines_entry_Inr[OF assms(2), of h1] by (simp add: firstValidFileLines_def)
  have "list_all (\<lambda>x. \<not> is_CorpusErrors x \<and> IsValidationError (Some x)) es"
    using reported_all_absorbed[OF es] assms(1)
    by (simp add: list_all_iff rejected_accepted_or_rejected)
  from Capture_absorbed_aggregate[OF this, of "[]"] es fv show ?thesis by auto
qed

lemma firstValid_loop_unreadable:
  "unreadable lib fsys dir f ioerr \<Longrightarrow>
   firstValidFileLines_loop lib fsys dir (f # fs) errs h =
     (([], [], Some (WrapError h
         (''reading '' @ strconv_Quote lib (Name f) @ '': '' @ Error ioerr) ioerr)), Suc h)"
  by (simp add: unreadable_def readLines_unreadable readErr_Some Capture_wrapped_opaque)

lemma dumpFiles_range_unreadable:
  "unreadable lib fsys dir f ioerr \<Longrightarrow>
   dumpFiles_range lib wr fsys dir n (f # fs) errs w h =
     (Some (WrapError h
         (''reading '' @ strconv_Quote lib (Name f) @ '': '' @ Error ioerr) ioerr), w, Suc h)"
  by (simp add: unreadable_def readLines_unreadable dumpFiles_range_Inl Capture_wrapped_opaque)

lemma DumpDir_valid_first:
  assumes run: "DumpDir lib (logged wr) fsys dir (w, []) h = (res, (w', log), h')"
    and ok: "all_written log"
    and cf: "corpusFiles fsys dir = Inr (pre @ f0 # later)"
    and pre: "list_all (rejected lib fsys dir) pre"
    and f0: "entry lib fsys dir f0 = Inr ls0"
  shows "\<exists>es1 w2 log2 h2 err2 w3 log3 h3 c errs2.
      list_all2 (reported lib fsys dir (length ls0)) es1 pre \<and>
      map fst log2 = (Pre (seps_for (length ls0)) @ [LF]) # map value_line ls0 \<and>
      dumpFiles_range lib (logged wr) fsys dir (length ls0) later [] (w2, log2) h2 =
        (err2, (w3, log3), h3) \<and>
      Capture es1 err2 = (c, errs2) \<and>
      (case c of
         Some e \<Rightarrow> res = Returns (Some e) \<and> log = log3
       | None \<Rightarrow> res = Returns (CorpusErrors_AsError errs2) \<and>
           log = log3 @ [(Post (seps_for (length ls0)) @ [LF], None)])"
proof -
  from firstValid_valid_first[OF pre f0, of "length ls0" later h] obtain es1 h1 where
    es1: "list_all2 (reported lib fsys dir (length ls0)) es1 pre"
    and fv: "firstValidFileLines lib fsys dir (pre @ f0 # later) h =
       ((ls0, f0 # later, CorpusErrors_AsError es1), h1)"
    and cap: "Capture [] (CorpusErrors_AsError es1) = (None, es1)" by blast
  let ?pre = "Pre (seps_for (length ls0)) @ [LF]"
  let ?post = "Post (seps_for (length ls0)) @ [LF]"
  from run show ?thesis
  proof (cases rule: DumpDir_cases)
    case (listing err)
    with cf show ?thesis by simp
  next
    case (phase1 files0 lines files err h1 e errs1)
    with cf fv cap show ?thesis by simp
  next
    case (pre_failed files0 lines files err h1 errs1 werr)
    from logged_result[OF pre_failed(4)] ok show ?thesis by simp
  next
    case (first_failed files0 lines files err h1 errs1 w1 e)
    obtain w1' log1 where w1: "w1 = (w1', log1)" by (cases w1)
    from dumpLines_logged[OF first_failed(5)[unfolded w1]] obtain new where
      "log = log1 @ new" "write_failed new (Some e)" by auto
    with ok write_failed_not_all_written show ?thesis by auto
  next
    case (phase2 files0 lines f rest err h1' errs1 w1 w2 h2 err2 e errs2)
    with cf fv cap have eq: "lines = ls0" "rest = later" "errs1 = es1" "h1' = h1" by simp_all
    obtain w1' log1 where w1: "w1 = (w1', log1)" by (cases w1)
    obtain w2' log2 where w2: "w2 = (w2', log2)" by (cases w2)
    from logged_result[OF phase2(4)[unfolded w1]] eq
    have log1: "log1 = [(?pre, None)]" by simp
    from dumpLines_logged[OF phase2(5)[unfolded w1 w2]] log1 eq
    have log2: "map fst log2 = ?pre # map value_line ls0" by auto
    have "dumpFiles_range lib (logged wr) fsys dir (length ls0) later [] (w2', log2) h2 =
        (err2, (w', log), h')"
      using phase2(6) eq w2 by (simp add: dumpFiles_def)
    with es1 log2 phase2(7,8) eq have
      "list_all2 (reported lib fsys dir (length ls0)) es1 pre \<and>
      map fst log2 = ?pre # map value_line ls0 \<and>
      dumpFiles_range lib (logged wr) fsys dir (length ls0) later [] (w2', log2) h2 =
        (err2, (w', log), h') \<and>
      Capture es1 err2 = (Some e, errs2) \<and>
      (case Some e of
         Some e \<Rightarrow> res = Returns (Some e) \<and> log = log
       | None \<Rightarrow> res = Returns (CorpusErrors_AsError errs2) \<and>
           log = log @ [(?post, None)])" by simp
    then show ?thesis by (intro exI) assumption
  next
    case (post_failed files0 lines f rest err h1 errs1 w1 w2 h2 err2 w3 h3 errs2 werr)
    obtain w3' log3 where w3: "w3 = (w3', log3)" by (cases w3)
    from logged_result[OF post_failed(8)[unfolded w3]] ok show ?thesis by simp
  next
    case (finished files0 lines f rest err h1' errs1 w1 w2 h2 err2 w3 errs2)
    with cf fv cap have eq: "lines = ls0" "rest = later" "errs1 = es1" "h1' = h1" by simp_all
    obtain w1' log1 where w1: "w1 = (w1', log1)" by (cases w1)
    obtain w2' log2 where w2: "w2 = (w2', log2)" by (cases w2)
    obtain w3' log3 where w3: "w3 = (w3', log3)" by (cases w3)
    from logged_result[OF finished(4)[unfolded w1]] eq
    have log1: "log1 = [(?pre, None)]" by simp
    from dumpLines_logged[OF finished(5)[unfolded w1 w2]] log1 eq
    have log2: "map fst log2 = ?pre # map value_line ls0" by auto
    have df: "dumpFiles_range lib (logged wr) fsys dir (length ls0) later [] (w2', log2) h2 =
        (err2, (w3', log3), h')"
      using finished(6) eq w2 w3 by (simp add: dumpFiles_def)
    from logged_result[OF finished(8)[unfolded w3]] eq
    have log: "log = log3 @ [(?post, None)]" by simp
    from es1 log2 df finished(7,9) eq log have
      "list_all2 (reported lib fsys dir (length ls0)) es1 pre \<and>
      map fst log2 = ?pre # map value_line ls0 \<and>
      dumpFiles_range lib (logged wr) fsys dir (length ls0) later [] (w2', log2) h2 =
        (err2, (w3', log3), h') \<and>
      Capture es1 err2 = (None, errs2) \<and>
      (case None :: error option of
         Some e \<Rightarrow> res = Returns (Some e) \<and> log = log3
       | None \<Rightarrow> res = Returns (CorpusErrors_AsError errs2) \<and>
           log = log3 @ [(?post, None)])" by simp
    then show ?thesis by (intro exI) assumption
  qed
qed

lemma first_valid_split:
  "list_all (accepted_or_rejected lib fsys dir) xs \<Longrightarrow>
   list_all (rejected lib fsys dir) xs \<or>
   (\<exists>pre1 f0 ls0 pre2. xs = pre1 @ f0 # pre2 \<and> list_all (rejected lib fsys dir) pre1 \<and>
      entry lib fsys dir f0 = Inr ls0 \<and> list_all (accepted_or_rejected lib fsys dir) pre2)"
proof (induction xs)
  case Nil
  then show ?case by simp
next
  case (Cons x xs)
  from Cons.prems have x: "accepted_or_rejected lib fsys dir x"
    and xs: "list_all (accepted_or_rejected lib fsys dir) xs" by simp_all
  show ?case
  proof (cases "entry lib fsys dir x")
    case (Inr ls)
    then have "x # xs = [] @ x # xs \<and> list_all (rejected lib fsys dir) [] \<and>
      entry lib fsys dir x = Inr ls \<and> list_all (accepted_or_rejected lib fsys dir) xs"
      using xs by simp
    then show ?thesis by blast
  next
    case (Inl e)
    with x have rx: "rejected lib fsys dir x"
      by (simp add: rejected_def accepted_or_rejected_def)
    from Cons.IH[OF xs] show ?thesis
    proof
      assume "list_all (rejected lib fsys dir) xs"
      with rx show ?thesis by simp
    next
      assume "\<exists>pre1 f0 ls0 pre2. xs = pre1 @ f0 # pre2 \<and>
        list_all (rejected lib fsys dir) pre1 \<and> entry lib fsys dir f0 = Inr ls0 \<and>
        list_all (accepted_or_rejected lib fsys dir) pre2"
      then obtain pre1 f0 ls0 pre2 where "xs = pre1 @ f0 # pre2"
        "list_all (rejected lib fsys dir) pre1" "entry lib fsys dir f0 = Inr ls0"
        "list_all (accepted_or_rejected lib fsys dir) pre2" by blast
      with rx have "x # xs = (x # pre1) @ f0 # pre2 \<and>
        list_all (rejected lib fsys dir) (x # pre1) \<and> entry lib fsys dir f0 = Inr ls0 \<and>
        list_all (accepted_or_rejected lib fsys dir) pre2" by simp
      then show ?thesis by blast
    qed
  qed
qed

lemma valid_entries_split:
  "list_all (accepted_or_rejected lib fsys dir) xs \<Longrightarrow>
   valid_entries lib fsys dir xs = ls0 # others \<Longrightarrow>
   \<exists>pre f0 later. xs = pre @ f0 # later \<and> list_all (rejected lib fsys dir) pre \<and>
      entry lib fsys dir f0 = Inr ls0 \<and> list_all (accepted_or_rejected lib fsys dir) later \<and>
      valid_entries lib fsys dir later = others"
proof (induction xs)
  case Nil
  then show ?case by (simp add: valid_entries_def)
next
  case (Cons x xs)
  from Cons.prems have x: "accepted_or_rejected lib fsys dir x"
    and xs: "list_all (accepted_or_rejected lib fsys dir) xs" by simp_all
  show ?case
  proof (cases "entry lib fsys dir x")
    case (Inr ls)
    with Cons.prems(2) have "ls = ls0" "valid_entries lib fsys dir xs = others"
      by (simp_all add: valid_entries_def)
    with Inr xs have "x # xs = [] @ x # xs \<and> list_all (rejected lib fsys dir) [] \<and>
      entry lib fsys dir x = Inr ls0 \<and> list_all (accepted_or_rejected lib fsys dir) xs \<and>
      valid_entries lib fsys dir xs = others" by simp
    then show ?thesis by blast
  next
    case (Inl e)
    with x have rx: "rejected lib fsys dir x"
      by (simp add: rejected_def accepted_or_rejected_def)
    from Inl Cons.prems(2) have "valid_entries lib fsys dir xs = ls0 # others"
      by (simp add: valid_entries_def)
    from Cons.IH[OF xs this] obtain pre f0 later where "xs = pre @ f0 # later"
      "list_all (rejected lib fsys dir) pre" "entry lib fsys dir f0 = Inr ls0"
      "list_all (accepted_or_rejected lib fsys dir) later"
      "valid_entries lib fsys dir later = others" by blast
    with rx have "x # xs = (x # pre) @ f0 # later \<and>
      list_all (rejected lib fsys dir) (x # pre) \<and> entry lib fsys dir f0 = Inr ls0 \<and>
      list_all (accepted_or_rejected lib fsys dir) later \<and>
      valid_entries lib fsys dir later = others" by simp
    then show ?thesis by blast
  qed
qed

lemma rest_chunks_valid_entries:
  "rest_chunks lib fsys dir n files =
     concat (map (\<lambda>ls. if length ls = n then entry_chunks n ls else [])
       (valid_entries lib fsys dir files))"
  by (induction files)
    (simp_all add: rest_chunks_Cons valid_entries_def split: sum.splits)

lemma corpusFiles_ReadDir:
  "ReadDir fsys dir = Inr listing \<Longrightarrow> filter IsRegular listing = pre @ f # post \<Longrightarrow>
   corpusFiles fsys dir = Inr (pre @ f # post)"
  by (simp add: corpusFiles_def getFiles_def)

lemma DumpDir_ok:
  assumes run: "DumpDir lib (logged wr) fsys dir (w, []) h = (res, (w', log), h')"
    and ok: "all_written log"
    and cf: "corpusFiles fsys dir = Inr (pre @ f0 # later)"
    and pre: "list_all (rejected lib fsys dir) pre"
    and f0: "entry lib fsys dir f0 = Inr ls0"
    and later: "list_all (accepted_or_rejected lib fsys dir) later"
  shows "\<exists>es1 es2.
     res = Returns (CorpusErrors_AsError (es1 @ es2)) \<and>
     list_all2 (reported lib fsys dir (length ls0)) es1 pre \<and>
     list_all2 (reported lib fsys dir (length ls0)) es2
       (filter (\<lambda>f. \<not> emitted lib fsys dir (length ls0) f) later) \<and>
     map fst log = (Pre (seps_for (length ls0)) @ [LF]) # map value_line ls0 @
       rest_chunks lib fsys dir (length ls0) later @ [Post (seps_for (length ls0)) @ [LF]]"
proof -
  let ?n = "length ls0"
  from DumpDir_valid_first[OF run ok cf pre f0]
  obtain es1 w2 log2 h2 err2 w3 log3 h3 c errs2 where
    es1: "list_all2 (reported lib fsys dir ?n) es1 pre"
    and log2: "map fst log2 = (Pre (seps_for ?n) @ [LF]) # map value_line ls0"
    and df: "dumpFiles_range lib (logged wr) fsys dir ?n later [] (w2, log2) h2 =
        (err2, (w3, log3), h3)"
    and cap: "Capture es1 err2 = (c, errs2)"
    and fin: "case c of
         Some e \<Rightarrow> res = Returns (Some e) \<and> log = log3
       | None \<Rightarrow> res = Returns (CorpusErrors_AsError errs2) \<and>
           log = log3 @ [(Post (seps_for ?n) @ [LF], None)]"
    by (elim exE conjE) (rule that; assumption)
  from fin ok have ok3: "all_written log3" by (cases c) simp_all
  have df': "dumpFiles_range lib (logged wr) fsys dir ?n (later @ []) [] (w2, log2) h2 =
        (err2, (w3, log3), h3)" using df by simp
  from dumpFiles_range_prefix[OF later df' ok3]
  obtain es2 w1 new h1 where
    es2: "list_all2 (reported lib fsys dir ?n) es2
      (filter (\<lambda>f. \<not> emitted lib fsys dir ?n f) later)"
    and ch: "map fst new = rest_chunks lib fsys dir ?n later"
    and fin2: "dumpFiles_range lib (logged wr) fsys dir ?n [] ([] @ es2) (w1, log2 @ new) h1 =
        (err2, (w3, log3), h3)" by blast
  from fin2 have err2: "err2 = CorpusErrors_AsError es2" and log3: "log3 = log2 @ new"
    by simp_all
  have "list_all (accepted_or_rejected lib fsys dir)
      (filter (\<lambda>f. \<not> emitted lib fsys dir ?n f) later)"
    using later by (simp add: list_all_iff)
  from reported_all_absorbed[OF es2 this]
  have "Capture es1 err2 = (None, es1 @ es2)"
    unfolding err2 by (rule Capture_absorbed_aggregate)
  with cap fin have "res = Returns (CorpusErrors_AsError (es1 @ es2))"
    "log = log3 @ [(Post (seps_for ?n) @ [LF], None)]" by simp_all
  with es1 es2 log2 ch log3 show ?thesis by auto
qed

lemma list_all2_refine:
  assumes "list_all2 P xs ys" and "list_all Q ys"
    and "\<And>x y. P x y \<Longrightarrow> Q y \<Longrightarrow> R x y"
  shows "list_all2 R xs ys"
  using assms(1,2) by (induction rule: list_all2_induct) (simp_all add: assms(3))

lemma reported_details:
  assumes "reported lib fsys dir n e f" and "accepted_or_rejected lib fsys dir f"
  shows "case entry lib fsys dir f of
       Inl e0 \<Rightarrow>
         Error e = ''reading '' @ strconv_Quote lib (Name f) @ '': '' @ Error e0 \<and>
         IsValidationError (Some e)
     | Inr ls \<Rightarrow>
         Error e = ''reading '' @ strconv_Quote lib (Name f) @
           '': inconsistent arg count in corpus entry: want '' @ fmt_d n @
           '', got '' @ fmt_d (length ls) \<and>
         errors_Is (Some e) (Some ErrInconsistentArgCount)"
proof (cases e)
  case (WrapError a msg inner)
  show ?thesis
  proof (cases "entry lib fsys dir f")
    case (Inl e0)
    with assms WrapError reported_absorbed[OF assms] show ?thesis by simp
  next
    case (Inr ls)
    with assms WrapError obtain a' m' where "inner = WrapError a' m' ErrInconsistentArgCount"
      by (auto split: error.splits)
    with assms WrapError Inr show ?thesis
      by (simp add: argCount_message_def sentinel_defs)
  qed
qed (use assms in simp_all)

lemma concat_entries:
  "concat (concat (map (\<lambda>ls. if length ls = n then entry_chunks n ls else []) ess)) =
   concat (map (\<lambda>ls. if length ls = n
                      then (if n > 1 then ''}, {'' @ [LF] else []) @
                           concat (map value_line ls)
                      else []) ess)"
  by (induction ess) (simp_all add: entry_chunks_def multiArgSep_def)

subsection \<open>The arity of a scan\<close>

text \<open>
  C5. In a scan whose writes all succeed, let \<open>f0\<close> be the first regular file, in
  listing order, that validates, with the lines \<open>ls0\<close>, the files before it being
  rejected with a validation error and the files after it validating or being rejected
  with a validation error. The arity is \<open>length ls0\<close>: the delimiters are chosen by
  it, and a later file that validates is emitted when it has \<open>length ls0\<close> lines and
  contributes nothing to the output otherwise. The result is the aggregate of the reports
  of the files before \<open>f0\<close> and of the later files that are not emitted, in listing
  order. The report of a later file that validates with another number \<open>k\<close> of lines
  matches \<open>ErrInconsistentArgCount\<close> under \<open>errors.Is\<close> and its message is the
  reading tag with the file's name followed by
  \<open>inconsistent arg count in corpus entry: want length ls0, got k\<close>; the scan goes on
  after it.
\<close>

theorem C5_arity:
  assumes run: "DumpDir lib (logged wr) fsys dir (w, []) h = (res, (w', log), h')"
    and ok: "all_written log"
    and rd: "ReadDir fsys dir = Inr listing"
    and files: "filter IsRegular listing = pre @ f0 # later"
    and pre: "list_all (rejected lib fsys dir) pre"
    and f0: "entry lib fsys dir f0 = Inr ls0"
    and later: "list_all (accepted_or_rejected lib fsys dir) later"
  shows "\<exists>es1 es2.
     res = Returns (CorpusErrors_AsError (es1 @ es2)) \<and>
     list_all2 (reported lib fsys dir (length ls0)) es1 pre \<and>
     list_all2 (reported lib fsys dir (length ls0)) es2
       (filter (\<lambda>f. \<not> emitted lib fsys dir (length ls0) f) later) \<and>
     list_all2
       (\<lambda>e f. case entry lib fsys dir f of
           Inl e0 \<Rightarrow>
             Error e = ''reading '' @ strconv_Quote lib (Name f) @ '': '' @ Error e0 \<and>
             IsValidationError (Some e)
         | Inr ls \<Rightarrow>
             Error e = ''reading '' @ strconv_Quote lib (Name f) @
               '': inconsistent arg count in corpus entry: want '' @ fmt_d (length ls0) @
               '', got '' @ fmt_d (length ls) \<and>
             errors_Is (Some e) (Some ErrInconsistentArgCount))
       es2 (filter (\<lambda>f. \<not> emitted lib fsys dir (length ls0) f) later) \<and>
     map fst log =
       (Pre (seps_for (length ls0)) @ [LF]) # map value_line ls0 @
       concat (map (\<lambda>f. case entry lib fsys dir f of
                          Inl e \<Rightarrow> []
                        | Inr ls \<Rightarrow>
                            if length ls = length ls0 then entry_chunks (length ls0) ls
                            else []) later) @
       [Post (seps_for (length ls0)) @ [LF]]"
proof -
  let ?n = "length ls0"
  let ?skipped = "filter (\<lambda>f. \<not> emitted lib fsys dir ?n f) later"
  from DumpDir_ok[OF run ok corpusFiles_ReadDir[OF rd files] pre f0 later]
  obtain es1 es2 where res: "res = Returns (CorpusErrors_AsError (es1 @ es2))"
    and es1: "list_all2 (reported lib fsys dir ?n) es1 pre"
    and es2: "list_all2 (reported lib fsys dir ?n) es2 ?skipped"
    and log: "map fst log = (Pre (seps_for ?n) @ [LF]) # map value_line ls0 @
       rest_chunks lib fsys dir ?n later @ [Post (seps_for ?n) @ [LF]]"
    by (elim exE conjE) (rule that; assumption)
  have sk: "list_all (accepted_or_rejected lib fsys dir) ?skipped"
    using later by (simp add: list_all_iff)
  have det: "list_all2
       (\<lambda>e f. case entry lib fsys dir f of
           Inl e0 \<Rightarrow>
             Error e = ''reading '' @ strconv_Quote lib (Name f) @ '': '' @ Error e0 \<and>
             IsValidationError (Some e)
         | Inr ls \<Rightarrow>
             Error e = ''reading '' @ strconv_Quote lib (Name f) @
               '': inconsistent arg count in corpus entry: want '' @ fmt_d ?n @
               '', got '' @ fmt_d (length ls) \<and>
             errors_Is (Some e) (Some ErrInconsistentArgCount))
       es2 ?skipped"
    by (rule list_all2_refine[OF es2 sk]) (rule reported_details)
  note log' = log[unfolded rest_chunks_def]
  show ?thesis
    by (rule exI[of _ es1], rule exI[of _ es2], intro conjI)
      (rule res, rule es1, rule es2, rule det, rule log')
qed

text \<open>
  An instance of C5: the directory of the tests with a two-argument entry between two
  one-argument entries.
\<close>

theorem C5_arity_witness:
  "DumpDir test_lib (logged Builder) multi_in_single_corpus ''multi-in-single'' ([], []) 10 =
     (Returns (Some (CorpusErrors
        [WrapError 11
           (''reading '' @ [DQ] @ ''2'' @ [DQ] @
            '': inconsistent arg count in corpus entry: want 1, got 2'')
           (WrapError 10 ''inconsistent arg count in corpus entry: want 1, got 2''
              ErrInconsistentArgCount)])),
      (''{'' @ [LF] @ value_line ''uint(3)'' @ value_line ''uint(5)'' @ ''}'' @ [LF],
       [(''{'' @ [LF], None), (value_line ''uint(3)'', None), (value_line ''uint(5)'', None),
        (''}'' @ [LF], None)]),
      12)
   \<and> (\<exists>es1 es2.
        Returns (Some (CorpusErrors
          [WrapError 11
             (''reading '' @ [DQ] @ ''2'' @ [DQ] @
              '': inconsistent arg count in corpus entry: want 1, got 2'')
             (WrapError 10 ''inconsistent arg count in corpus entry: want 1, got 2''
                ErrInconsistentArgCount)])) =
          Returns (CorpusErrors_AsError (es1 @ es2)) \<and>
        list_all2 (reported test_lib multi_in_single_corpus ''multi-in-single'' 1) es1 [] \<and>
        list_all2 (reported test_lib multi_in_single_corpus ''multi-in-single'' 1) es2
          [\<lparr>Name = ''2'', IsRegular = True\<rparr>] \<and>
        list_all2
          (\<lambda>e f. Error e = ''reading '' @ [DQ] @ Name f @ [DQ] @
                 '': inconsistent arg count in corpus entry: want 1, got 2'' \<and>
               errors_Is (Some e) (Some ErrInconsistentArgCount))
          es2 [\<lparr>Name = ''2'', IsRegular = True\<rparr>] \<and>
        map fst [(''{'' @ [LF], None), (value_line ''uint(3)'', None),
                 (value_line ''uint(5)'', None), (''}'' @ [LF], None :: error option)] =
          [''{'' @ [LF], value_line ''uint(3)'', value_line ''uint(5)'', ''}'' @ [LF]])"
proof -
  let ?fs = multi_in_single_corpus
  let ?d = "''multi-in-single''"
  let ?f1 = "\<lparr>Name = ''1'', IsRegular = True\<rparr>"
  let ?f2 = "\<lparr>Name = ''2'', IsRegular = True\<rparr>"
  let ?f3 = "\<lparr>Name = ''3'', IsRegular = True\<rparr>"
  let ?log = "[(''{'' @ [LF], None), (value_line ''uint(3)'', None),
     (value_line ''uint(5)'', None), (''}'' @ [LF], None :: error option)]"
  let ?res = "Returns (Some (CorpusErrors
        [WrapError 11
           (''reading '' @ [DQ] @ ''2'' @ [DQ] @
            '': inconsistent arg count in corpus entry: want 1, got 2'')
           (WrapError 10 ''inconsistent arg count in corpus entry: want 1, got 2''
              ErrInconsistentArgCount)]))"
  have run: "DumpDir test_lib (logged Builder) ?fs ?d ([], []) 10 =
     (?res,
      (''{'' @ [LF] @ value_line ''uint(3)'' @ value_line ''uint(5)'' @ ''}'' @ [LF], ?log),
      12)"
    by code_simp
  have ok: "all_written ?log" by (simp add: all_written_def)
  have rd: "ReadDir ?fs ?d = Inr [?f1, ?f2, ?f3]"
    by (simp add: multi_in_single_corpus_def dirFS_def)
  have files: "filter IsRegular [?f1, ?f2, ?f3] = [] @ ?f1 # [?f2, ?f3]" by simp
  have pre: "list_all (rejected test_lib ?fs ?d) []" by simp
  have e1: "entry test_lib ?fs ?d ?f1 = Inr [''uint(3)'']" by code_simp
  have e2: "entry test_lib ?fs ?d ?f2 = Inr [''string('' @ [DQ] @ ''foo'' @ [DQ] @ '')'', ''uint(8)'']"
    by code_simp
  have e3: "entry test_lib ?fs ?d ?f3 = Inr [''uint(5)'']" by code_simp
  have later: "list_all (accepted_or_rejected test_lib ?fs ?d) [?f2, ?f3]"
    by (simp add: accepted_or_rejected_def e2 e3)
  have d1: "fmt_d (Suc 0) = ''1''" and d2: "fmt_d (Suc (Suc 0)) = ''2''" by code_simp+
  have q: "\<And>s. strconv_Quote test_lib s = [DQ] @ s @ [DQ]" by (simp add: test_lib_def)
  from C5_arity[OF run ok rd files pre e1 later]
  obtain es1 es2 where
    c1: "?res = Returns (CorpusErrors_AsError (es1 @ es2))" and
    2: "list_all2 (reported test_lib ?fs ?d (length [''uint(3)''])) es1 []" and
    3: "list_all2 (reported test_lib ?fs ?d (length [''uint(3)''])) es2
       (filter (\<lambda>f. \<not> emitted test_lib ?fs ?d (length [''uint(3)'']) f) [?f2, ?f3])" and
    4: "list_all2
       (\<lambda>e f. case entry test_lib ?fs ?d f of
           Inl e0 \<Rightarrow>
             Error e = ''reading '' @ strconv_Quote test_lib (Name f) @ '': '' @ Error e0 \<and>
             IsValidationError (Some e)
         | Inr ls \<Rightarrow>
             Error e = ''reading '' @ strconv_Quote test_lib (Name f) @
               '': inconsistent arg count in corpus entry: want '' @
               fmt_d (length [''uint(3)'']) @ '', got '' @ fmt_d (length ls) \<and>
             errors_Is (Some e) (Some ErrInconsistentArgCount))
       es2 (filter (\<lambda>f. \<not> emitted test_lib ?fs ?d (length [''uint(3)'']) f) [?f2, ?f3])" and
    5: "map fst ?log =
       (Pre (seps_for (length [''uint(3)''])) @ [LF]) # map value_line [''uint(3)''] @
       concat (map (\<lambda>f. case entry test_lib ?fs ?d f of
                          Inl e \<Rightarrow> []
                        | Inr ls \<Rightarrow>
                            if length ls = length [''uint(3)'']
                            then entry_chunks (length [''uint(3)'']) ls
                            else []) [?f2, ?f3]) @
       [Post (seps_for (length [''uint(3)''])) @ [LF]]"
    by (elim exE conjE) (rule that; assumption)
  have sk: "filter (\<lambda>f. \<not> emitted test_lib ?fs ?d (length [''uint(3)'']) f) [?f2, ?f3] = [?f2]"
    by (simp add: emitted_def e2 e3)
  have c2: "list_all2 (reported test_lib ?fs ?d 1) es1 []" using 2 by simp
  have c3: "list_all2 (reported test_lib ?fs ?d 1) es2 [?f2]" using 3 unfolding sk by simp
  have c4: "list_all2
          (\<lambda>e f. Error e = ''reading '' @ [DQ] @ Name f @ [DQ] @
                 '': inconsistent arg count in corpus entry: want 1, got 2'' \<and>
               errors_Is (Some e) (Some ErrInconsistentArgCount))
          es2 [?f2]"
    using 4 unfolding sk
    by (simp add: list_all2_Cons2 e2 d1 d2 q)
  have c5: "map fst ?log = [''{'' @ [LF], value_line ''uint(3)'', value_line ''uint(5)'', ''}'' @ [LF]]"
    by simp
  show ?thesis
    by (rule conjI, rule run, rule exI[of _ es1], rule exI[of _ es2], intro conjI)
      (rule c1, rule c2, rule c3, rule c4, rule c5)
qed

subsection \<open>The rendered output\<close>

text \<open>
  C7. In a scan whose writes all succeed and whose regular files all validate or are
  rejected with a validation error, let \<open>ls0 # others\<close> be the entries of the files that
  validate, in listing order. The bytes passed to the writer, in order, are the opening
  delimiter and a line feed, the value lines of \<open>ls0\<close>, then for every entry of
  \<open>others\<close> with as many values as \<open>ls0\<close> its value lines, preceded by \<open>}, {\<close> and
  a line feed when \<open>ls0\<close> has more than one value, and the closing delimiter and a line
  feed; the delimiters are \<open>{{\<close> and \<open>}}\<close> when \<open>ls0\<close> has more than one value and
  \<open>{\<close> and \<open>}\<close> otherwise; a value line is a tab, the value, a comma and a line feed.
  For the entries \<open>uint(3)\<close> and \<open>uint(5)\<close>, and for the entries
  \<open>(string("foo"), uint(8))\<close> and \<open>(string("bar"), uint(13))\<close>, this is the text that the
  specification gives.
\<close>

theorem C7_rendering:
  assumes run: "DumpDir lib (logged wr) fsys dir (w, []) h = (res, (w', log), h')"
    and ok: "all_written log"
    and rd: "ReadDir fsys dir = Inr listing"
    and aor: "list_all (accepted_or_rejected lib fsys dir) (filter IsRegular listing)"
    and ve: "valid_entries lib fsys dir (filter IsRegular listing) = ls0 # others"
  shows "concat (map fst log) =
       (if length ls0 > 1 then ''{{'' else ''{'') @ [LF] @
       concat (map value_line ls0) @
       concat (map (\<lambda>ls. if length ls = length ls0
                          then (if length ls0 > 1 then ''}, {'' @ [LF] else []) @
                               concat (map value_line ls)
                          else []) others) @
       (if length ls0 > 1 then ''}}'' else ''}'') @ [LF]
     \<and> (ls0 = [''uint(3)''] \<and> others = [[''uint(5)'']] \<longrightarrow>
          concat (map fst log) =
            ''{'' @ [LF] @ [TAB] @ ''uint(3),'' @ [LF] @ [TAB] @ ''uint(5),'' @ [LF] @
            ''}'' @ [LF])
     \<and> (ls0 = [''string('' @ [DQ] @ ''foo'' @ [DQ] @ '')'', ''uint(8)''] \<and>
        others = [[''string('' @ [DQ] @ ''bar'' @ [DQ] @ '')'', ''uint(13)'']] \<longrightarrow>
          concat (map fst log) =
            ''{{'' @ [LF] @ [TAB] @ ''string('' @ [DQ] @ ''foo'' @ [DQ] @ ''),'' @ [LF] @
            [TAB] @ ''uint(8),'' @ [LF] @ ''}, {'' @ [LF] @
            [TAB] @ ''string('' @ [DQ] @ ''bar'' @ [DQ] @ ''),'' @ [LF] @
            [TAB] @ ''uint(13),'' @ [LF] @ ''}}'' @ [LF])"
proof -
  let ?n = "length ls0"
  from valid_entries_split[OF aor ve]
  obtain pre f0 later where xs: "filter IsRegular listing = pre @ f0 # later"
    and pre: "list_all (rejected lib fsys dir) pre"
    and f0: "entry lib fsys dir f0 = Inr ls0"
    and later: "list_all (accepted_or_rejected lib fsys dir) later"
    and others: "valid_entries lib fsys dir later = others"
    by (elim exE conjE) (rule that; assumption)
  from DumpDir_ok[OF run ok corpusFiles_ReadDir[OF rd xs] pre f0 later]
  have log: "map fst log = (Pre (seps_for ?n) @ [LF]) # map value_line ls0 @
       rest_chunks lib fsys dir ?n later @ [Post (seps_for ?n) @ [LF]]"
    by (elim exE conjE)
  have g: "concat (map fst log) =
       (if length ls0 > 1 then ''{{'' else ''{'') @ [LF] @
       concat (map value_line ls0) @
       concat (map (\<lambda>ls. if length ls = length ls0
                          then (if length ls0 > 1 then ''}, {'' @ [LF] else []) @
                               concat (map value_line ls)
                          else []) others) @
       (if length ls0 > 1 then ''}}'' else ''}'') @ [LF]"
    unfolding log rest_chunks_valid_entries others
    by (simp add: concat_entries seps_for_def multiArgSep_def sigleArgSep_def)
  have s: "ls0 = [''uint(3)''] \<and> others = [[''uint(5)'']] \<longrightarrow>
          concat (map fst log) =
            ''{'' @ [LF] @ [TAB] @ ''uint(3),'' @ [LF] @ [TAB] @ ''uint(5),'' @ [LF] @
            ''}'' @ [LF]"
    unfolding g by (simp add: value_line_def)
  have m: "ls0 = [''string('' @ [DQ] @ ''foo'' @ [DQ] @ '')'', ''uint(8)''] \<and>
        others = [[''string('' @ [DQ] @ ''bar'' @ [DQ] @ '')'', ''uint(13)'']] \<longrightarrow>
          concat (map fst log) =
            ''{{'' @ [LF] @ [TAB] @ ''string('' @ [DQ] @ ''foo'' @ [DQ] @ ''),'' @ [LF] @
            [TAB] @ ''uint(8),'' @ [LF] @ ''}, {'' @ [LF] @
            [TAB] @ ''string('' @ [DQ] @ ''bar'' @ [DQ] @ ''),'' @ [LF] @
            [TAB] @ ''uint(13),'' @ [LF] @ ''}}'' @ [LF]"
    unfolding g by (simp add: value_line_def)
  from g s m show ?thesis by (intro conjI)
qed

text \<open>
  Instances of C7: the one-argument and the two-argument directory of the tests, written
  to a \<open>Builder\<close>.
\<close>

theorem C7_rendering_witness:
  "DumpDir test_lib (logged Builder) single_corpus ''single'' ([], []) 10 =
     (Returns None,
      (''{'' @ [LF] @ [TAB] @ ''uint(3),'' @ [LF] @ [TAB] @ ''uint(5),'' @ [LF] @ ''}'' @ [LF],
       [(''{'' @ [LF], None), (value_line ''uint(3)'', None), (value_line ''uint(5)'', None),
        (''}'' @ [LF], None)]),
      10)
   \<and> concat (map fst
        [(''{'' @ [LF], None :: error option), (value_line ''uint(3)'', None),
         (value_line ''uint(5)'', None), (''}'' @ [LF], None)]) =
       ''{'' @ [LF] @ [TAB] @ ''uint(3),'' @ [LF] @ [TAB] @ ''uint(5),'' @ [LF] @ ''}'' @ [LF]
   \<and> DumpDir test_lib (logged Builder) multi_corpus ''multi'' ([], []) 10 =
     (Returns None,
      (''{{'' @ [LF] @ [TAB] @ ''string('' @ [DQ] @ ''foo'' @ [DQ] @ ''),'' @ [LF] @
       [TAB] @ ''uint(8),'' @ [LF] @ ''}, {'' @ [LF] @
       [TAB] @ ''string('' @ [DQ] @ ''bar'' @ [DQ] @ ''),'' @ [LF] @
       [TAB] @ ''uint(13),'' @ [LF] @ ''}}'' @ [LF],
       [(''{{'' @ [LF], None),
        (value_line (''string('' @ [DQ] @ ''foo'' @ [DQ] @ '')''), None),
        (value_line ''uint(8)'', None),
        (''}, {'' @ [LF], None),
        (value_line (''string('' @ [DQ] @ ''bar'' @ [DQ] @ '')''), None),
        (value_line ''uint(13)'', None),
        (''}}'' @ [LF], None)]),
      10)
   \<and> concat (map fst
        [(''{{'' @ [LF], None :: error option),
         (value_line (''string('' @ [DQ] @ ''foo'' @ [DQ] @ '')''), None),
         (value_line ''uint(8)'', None),
         (''}, {'' @ [LF], None),
         (value_line (''string('' @ [DQ] @ ''bar'' @ [DQ] @ '')''), None),
         (value_line ''uint(13)'', None),
         (''}}'' @ [LF], None)]) =
       ''{{'' @ [LF] @ [TAB] @ ''string('' @ [DQ] @ ''foo'' @ [DQ] @ ''),'' @ [LF] @
       [TAB] @ ''uint(8),'' @ [LF] @ ''}, {'' @ [LF] @
       [TAB] @ ''string('' @ [DQ] @ ''bar'' @ [DQ] @ ''),'' @ [LF] @
       [TAB] @ ''uint(13),'' @ [LF] @ ''}}'' @ [LF]"
proof -
  let ?f1 = "\<lparr>Name = ''1'', IsRegular = True\<rparr>"
  let ?f2 = "\<lparr>Name = ''2'', IsRegular = True\<rparr>"
  let ?foo = "''string('' @ [DQ] @ ''foo'' @ [DQ] @ '')''"
  let ?bar = "''string('' @ [DQ] @ ''bar'' @ [DQ] @ '')''"
  let ?slog = "[(''{'' @ [LF], None :: error option), (value_line ''uint(3)'', None),
     (value_line ''uint(5)'', None), (''}'' @ [LF], None)]"
  let ?mlog = "[(''{{'' @ [LF], None :: error option), (value_line ?foo, None),
     (value_line ''uint(8)'', None), (''}, {'' @ [LF], None), (value_line ?bar, None),
     (value_line ''uint(13)'', None), (''}}'' @ [LF], None)]"
  have srun: "DumpDir test_lib (logged Builder) single_corpus ''single'' ([], []) 10 =
     (Returns None,
      (''{'' @ [LF] @ [TAB] @ ''uint(3),'' @ [LF] @ [TAB] @ ''uint(5),'' @ [LF] @ ''}'' @ [LF],
       ?slog), 10)"
    by code_simp
  have mrun: "DumpDir test_lib (logged Builder) multi_corpus ''multi'' ([], []) 10 =
     (Returns None,
      (''{{'' @ [LF] @ [TAB] @ ''string('' @ [DQ] @ ''foo'' @ [DQ] @ ''),'' @ [LF] @
       [TAB] @ ''uint(8),'' @ [LF] @ ''}, {'' @ [LF] @
       [TAB] @ ''string('' @ [DQ] @ ''bar'' @ [DQ] @ ''),'' @ [LF] @
       [TAB] @ ''uint(13),'' @ [LF] @ ''}}'' @ [LF],
       ?mlog), 10)"
    by code_simp
  have sok: "all_written ?slog" and mok: "all_written ?mlog"
    by (simp_all add: all_written_def)
  have srd: "ReadDir single_corpus ''single'' = Inr [?f1, ?f2]"
    by (simp add: single_corpus_def dirFS_def)
  have mrd: "ReadDir multi_corpus ''multi'' = Inr [?f1, ?f2]"
    by (simp add: multi_corpus_def dirFS_def)
  have fl: "filter IsRegular [?f1, ?f2] = [?f1, ?f2]" by simp
  have s1: "entry test_lib single_corpus ''single'' ?f1 = Inr [''uint(3)'']" by code_simp
  have s2: "entry test_lib single_corpus ''single'' ?f2 = Inr [''uint(5)'']" by code_simp
  have m1: "entry test_lib multi_corpus ''multi'' ?f1 = Inr [?foo, ''uint(8)'']" by code_simp
  have m2: "entry test_lib multi_corpus ''multi'' ?f2 = Inr [?bar, ''uint(13)'']" by code_simp
  have saor: "list_all (accepted_or_rejected test_lib single_corpus ''single'')
      (filter IsRegular [?f1, ?f2])"
    unfolding fl by (simp add: accepted_or_rejected_def s1 s2)
  have maor: "list_all (accepted_or_rejected test_lib multi_corpus ''multi'')
      (filter IsRegular [?f1, ?f2])"
    unfolding fl by (simp add: accepted_or_rejected_def m1 m2)
  have sve: "valid_entries test_lib single_corpus ''single'' (filter IsRegular [?f1, ?f2]) =
      [''uint(3)''] # [[''uint(5)'']]"
    unfolding fl by (simp add: valid_entries_def s1 s2)
  have mve: "valid_entries test_lib multi_corpus ''multi'' (filter IsRegular [?f1, ?f2]) =
      [?foo, ''uint(8)''] # [[?bar, ''uint(13)'']]"
    unfolding fl by (simp add: valid_entries_def m1 m2)
  have sout: "concat (map fst ?slog) =
       ''{'' @ [LF] @ [TAB] @ ''uint(3),'' @ [LF] @ [TAB] @ ''uint(5),'' @ [LF] @ ''}'' @ [LF]"
    using C7_rendering[OF srun sok srd saor sve] by blast
  have mout: "concat (map fst ?mlog) =
       ''{{'' @ [LF] @ [TAB] @ ''string('' @ [DQ] @ ''foo'' @ [DQ] @ ''),'' @ [LF] @
       [TAB] @ ''uint(8),'' @ [LF] @ ''}, {'' @ [LF] @
       [TAB] @ ''string('' @ [DQ] @ ''bar'' @ [DQ] @ ''),'' @ [LF] @
       [TAB] @ ''uint(13),'' @ [LF] @ ''}}'' @ [LF]"
    using C7_rendering[OF mrun mok mrd maor mve] by blast
  show ?thesis
    by (intro conjI) (rule srun, rule sout, rule mrun, rule mout)
qed

subsection \<open>A file that cannot be read\<close>

text \<open>
  C10. Let \<open>f\<close> be a regular file whose read fails with an error \<open>ioerr\<close> that matches
  neither a validation error nor \<open>ErrEmptyCorpus\<close>, the regular files before it
  validating or being rejected with a validation error, in a scan whose writes all
  succeed. Then \<open>DumpDir\<close> returns \<open>ioerr\<close> wrapped by \<open>readErr\<close> with the name of
  \<open>f\<close>, and not an aggregate: the reports of the files before \<open>f\<close> are not part of the
  result. This holds whether \<open>f\<close> is met before the first valid entry, in
  \<open>firstValidFileLines\<close>, or after it, in \<open>dumpFiles\<close>: both loops return the wrapped
  error at \<open>f\<close>, whatever they have captured so far.
\<close>

theorem C10_read_failure:
  assumes run: "DumpDir lib (logged wr) fsys dir (w, []) h = (res, (w', log), h')"
    and ok: "all_written log"
    and rd: "ReadDir fsys dir = Inr listing"
    and files: "filter IsRegular listing = pre @ f # post"
    and pre: "list_all (accepted_or_rejected lib fsys dir) pre"
    and unr: "unreadable lib fsys dir f ioerr"
  shows "(\<exists>a. res = Returns (Some (WrapError a
             (''reading '' @ strconv_Quote lib (Name f) @ '': '' @ Error ioerr) ioerr)))
     \<and> (\<forall>fs errs h0. firstValidFileLines_loop lib fsys dir (f # fs) errs h0 =
           (([], [], Some (WrapError h0
               (''reading '' @ strconv_Quote lib (Name f) @ '': '' @ Error ioerr) ioerr)),
            Suc h0))
     \<and> (\<forall>n fs errs w0 h0. dumpFiles_range lib wr fsys dir n (f # fs) errs w0 h0 =
           (Some (WrapError h0
               (''reading '' @ strconv_Quote lib (Name f) @ '': '' @ Error ioerr) ioerr),
            w0, Suc h0))"
proof -
  let ?msg = "''reading '' @ strconv_Quote lib (Name f) @ '': '' @ Error ioerr"
  have op: "opaque ioerr" using unr by (simp add: unreadable_def)
  have cf: "corpusFiles fsys dir = Inr (pre @ f # post)"
    by (rule corpusFiles_ReadDir[OF rd files])
  have r: "\<exists>a. res = Returns (Some (WrapError a ?msg ioerr))"
    using first_valid_split[OF pre]
  proof
    assume rj: "list_all (rejected lib fsys dir) pre"
    from firstValid_rejected_prefix[OF rj, of 0 "f # post" "[]" h]
    obtain es h1 where
      "firstValidFileLines_loop lib fsys dir (pre @ f # post) [] h =
       firstValidFileLines_loop lib fsys dir (f # post) ([] @ es) h1" by blast
    with firstValid_loop_unreadable[OF unr, of post "[] @ es" h1] have fv: "firstValidFileLines lib fsys dir (pre @ f # post) h =
       (([], [], Some (WrapError h1 ?msg ioerr)), Suc h1)"
      by (simp add: firstValidFileLines_def del: firstValidFileLines_loop.simps)
    have "res = Returns (Some (WrapError h1 ?msg ioerr))"
      using run by (simp add: DumpDir_def cf fv Capture_wrapped_opaque[OF op])
    then show ?thesis by blast
  next
    assume "\<exists>pre1 f0 ls0 pre2. pre = pre1 @ f0 # pre2 \<and>
      list_all (rejected lib fsys dir) pre1 \<and> entry lib fsys dir f0 = Inr ls0 \<and>
      list_all (accepted_or_rejected lib fsys dir) pre2"
    then obtain pre1 f0 ls0 pre2 where p: "pre = pre1 @ f0 # pre2"
      and rj: "list_all (rejected lib fsys dir) pre1"
      and f0: "entry lib fsys dir f0 = Inr ls0"
      and p2: "list_all (accepted_or_rejected lib fsys dir) pre2"
      by (elim exE conjE) (rule that; assumption)
    have cf': "corpusFiles fsys dir = Inr (pre1 @ f0 # (pre2 @ f # post))"
      using cf p by simp
    from DumpDir_valid_first[OF run ok cf' rj f0]
    obtain es1 w2 log2 h2 err2 w3 log3 h3 c errs2 where
      df: "dumpFiles_range lib (logged wr) fsys dir (length ls0) (pre2 @ f # post) []
             (w2, log2) h2 = (err2, (w3, log3), h3)"
      and cap: "Capture es1 err2 = (c, errs2)"
      and fin: "case c of
         Some e \<Rightarrow> res = Returns (Some e) \<and> log = log3
       | None \<Rightarrow> res = Returns (CorpusErrors_AsError errs2) \<and>
           log = log3 @ [(Post (seps_for (length ls0)) @ [LF], None)]"
      by (elim exE conjE) (rule that; assumption)
    have ok3: "all_written log3"
      using fin ok by (cases c) (simp_all add: all_written_append)
    from dumpFiles_range_prefix[OF p2 df ok3]
    obtain es w1 new h1 where
      "dumpFiles_range lib (logged wr) fsys dir (length ls0) (f # post) ([] @ es)
         (w1, log2 @ new) h1 = (err2, (w3, log3), h3)"
      by (elim exE conjE) (rule that; assumption)
    with dumpFiles_range_unreadable[OF unr, of "logged wr" "length ls0" post "[] @ es"
        "(w1, log2 @ new)" h1]
    have "err2 = Some (WrapError h1 ?msg ioerr)"
      by (simp del: dumpFiles_range.simps)
    with cap have "c = Some (WrapError h1 ?msg ioerr)"
      by (simp add: Capture_wrapped_opaque[OF op])
    with fin have "res = Returns (Some (WrapError h1 ?msg ioerr))" by simp
    then show ?thesis by blast
  qed
  have a: "\<forall>fs errs h0. firstValidFileLines_loop lib fsys dir (f # fs) errs h0 =
           (([], [], Some (WrapError h0 ?msg ioerr)), Suc h0)"
    by (intro allI) (rule firstValid_loop_unreadable[OF unr])
  have b: "\<forall>n fs errs w0 h0. dumpFiles_range lib wr fsys dir n (f # fs) errs w0 h0 =
           (Some (WrapError h0 ?msg ioerr), w0, Suc h0)"
    by (intro allI) (rule dumpFiles_range_unreadable[OF unr])
  from r a b show ?thesis by (intro conjI)
qed

text \<open>
  Instances of C10: a file that is gone when it is read, met after the first valid entry
  and a rejected file, and met before the first valid entry, after a rejected file.
\<close>

theorem C10_read_failure_witness:
  "DumpDir test_lib (logged Builder) vanished_corpus ''vanished'' ([], []) 10 =
     (Returns (Some (WrapError 12
        (''reading '' @ [DQ] @ ''gone'' @ [DQ] @ '': open vanished/gone: file does not exist'')
        (WrapError 102 ''open vanished/gone: file does not exist'' ErrNotExist))),
      (''{'' @ [LF] @ value_line ''uint(3)'',
       [(''{'' @ [LF], None), (value_line ''uint(3)'', None)]),
      13)
   \<and> (\<exists>a. Returns (Some (WrapError 12
        (''reading '' @ [DQ] @ ''gone'' @ [DQ] @ '': open vanished/gone: file does not exist'')
        (WrapError 102 ''open vanished/gone: file does not exist'' ErrNotExist))) =
      Returns (Some (WrapError a
        (''reading '' @ strconv_Quote test_lib ''gone'' @ '': '' @
         Error (WrapError 102 ''open vanished/gone: file does not exist'' ErrNotExist))
        (WrapError 102 ''open vanished/gone: file does not exist'' ErrNotExist))))
   \<and> DumpDir test_lib (logged Builder) vanished_first_corpus ''vanished'' ([], []) 20 =
     (Returns (Some (WrapError 22
        (''reading '' @ [DQ] @ ''gone'' @ [DQ] @ '': open vanished/gone: file does not exist'')
        (WrapError 102 ''open vanished/gone: file does not exist'' ErrNotExist))),
      ([], []),
      23)
   \<and> (\<exists>a. Returns (Some (WrapError 22
        (''reading '' @ [DQ] @ ''gone'' @ [DQ] @ '': open vanished/gone: file does not exist'')
        (WrapError 102 ''open vanished/gone: file does not exist'' ErrNotExist))) =
      Returns (Some (WrapError a
        (''reading '' @ strconv_Quote test_lib ''gone'' @ '': '' @
         Error (WrapError 102 ''open vanished/gone: file does not exist'' ErrNotExist))
        (WrapError 102 ''open vanished/gone: file does not exist'' ErrNotExist))))"
proof -
  let ?d = "''vanished''"
  let ?f1 = "\<lparr>Name = ''1'', IsRegular = True\<rparr>"
  let ?f2 = "\<lparr>Name = ''2'', IsRegular = True\<rparr>"
  let ?bad = "\<lparr>Name = ''badVer'', IsRegular = True\<rparr>"
  let ?gone = "\<lparr>Name = ''gone'', IsRegular = True\<rparr>"
  let ?io = "WrapError 102 ''open vanished/gone: file does not exist'' ErrNotExist"
  let ?msg = "''reading '' @ [DQ] @ ''gone'' @ [DQ] @
     '': open vanished/gone: file does not exist''"
  let ?log = "[(''{'' @ [LF], None :: error option), (value_line ''uint(3)'', None)]"
  have run2: "DumpDir test_lib (logged Builder) vanished_corpus ?d ([], []) 10 =
     (Returns (Some (WrapError 12 ?msg ?io)), (''{'' @ [LF] @ value_line ''uint(3)'', ?log), 13)"
    by code_simp
  have run1: "DumpDir test_lib (logged Builder) vanished_first_corpus ?d ([], []) 20 =
     (Returns (Some (WrapError 22 ?msg ?io)), ([], []), 23)"
    by code_simp
  have ok2: "all_written ?log" and ok1: "all_written []" by (simp_all add: all_written_def)
  have rd2: "ReadDir vanished_corpus ?d = Inr [?f1, ?bad, ?gone, ?f2]"
    by (simp add: vanished_corpus_def listedFS_def)
  have rd1: "ReadDir vanished_first_corpus ?d = Inr [?bad, ?gone, ?f1]"
    by (simp add: vanished_first_corpus_def listedFS_def)
  have fl2: "filter IsRegular [?f1, ?bad, ?gone, ?f2] = [?f1, ?bad] @ ?gone # [?f2]" by simp
  have fl1: "filter IsRegular [?bad, ?gone, ?f1] = [?bad] @ ?gone # [?f1]" by simp
  have pre2: "list_all (accepted_or_rejected test_lib vanished_corpus ?d) [?f1, ?bad]"
    by code_simp
  have pre1: "list_all (accepted_or_rejected test_lib vanished_first_corpus ?d) [?bad]"
    by code_simp
  have op: "opaque ?io"
    by (simp add: opaque_def IsValidationError_def sentinel_defs ErrNotExist_def)
  have rf2: "ReadFile vanished_corpus (path_Join test_lib ?d (Name ?gone)) = Inl ?io"
    by code_simp
  have rf1: "ReadFile vanished_first_corpus (path_Join test_lib ?d (Name ?gone)) = Inl ?io"
    by code_simp
  have unr2: "unreadable test_lib vanished_corpus ?d ?gone ?io"
    unfolding unreadable_def using rf2 op by (rule conjI)
  have unr1: "unreadable test_lib vanished_first_corpus ?d ?gone ?io"
    unfolding unreadable_def using rf1 op by (rule conjI)
  have n: "Name ?gone = ''gone''" by simp
  have c2: "\<exists>a. Returns (Some (WrapError 12 ?msg ?io)) = Returns (Some (WrapError a
        (''reading '' @ strconv_Quote test_lib ''gone'' @ '': '' @ Error ?io) ?io))"
    using C10_read_failure[OF run2 ok2 rd2 fl2 pre2 unr2] unfolding n by (elim conjE)
  have c1: "\<exists>a. Returns (Some (WrapError 22 ?msg ?io)) = Returns (Some (WrapError a
        (''reading '' @ strconv_Quote test_lib ''gone'' @ '': '' @ Error ?io) ?io))"
    using C10_read_failure[OF run1 ok1 rd1 fl1 pre1 unr1] unfolding n by (elim conjE)
  show ?thesis
    by (intro conjI) (rule run2, rule c2, rule run1, rule c1)
qed

end
